theory Spec2Isabelle
  imports Complex_Main "HOL-Library.Signed_Division" "HOL-Library.Log_Nat"
begin

section \<open>The KFeatureRoutingFunction kernel\<close>

text \<open>
  A shallow embedding of \<^verbatim>\<open>KFeatureRoutingFunction::Compute\<close>
  (\<^verbatim>\<open>k_feature_routing_function_op.cc\<close>). The kernel fills, for every row of the
  input batch, the probability of reaching each node of a binary tree stored as a flat
  array: node \<open>j\<close> has the children \<open>2j+1\<close> and \<open>2j+2\<close>.

  The element type \<open>'a\<close> stands for the C++ \<^verbatim>\<open>float\<close>. The kernel uses three
  operations on it: the constant \<^verbatim>\<open>1.0f\<close>, the product and the difference. They are
  the operations \<open>1\<close>, \<open>*\<close> and \<open>-\<close> of the classes \<open>one\<close>, \<open>times\<close> and
  \<open>minus\<close>, which assume no law at all: whatever is proved below holds for rounded
  binary32 arithmetic as well as for exact arithmetic.
\<close>

subsection \<open>Tensors\<close>

text \<open>
  Modelled from the spec: the \<^verbatim>\<open>Tensor\<close> type of the framework
  (\<^verbatim>\<open>tensorflow/core/framework/tensor.h\<close>), of which the kernel uses the shape, the
  slice along the first dimension and the indexed element. A tensor is its shape (the
  list of dimension sizes) and its elements in row-major order. Where the framework
  states a requirement (a dimension index below the rank, a slice inside the first
  dimension, an element index inside the buffer), the accessor returns \<open>None\<close> when it
  is violated.
\<close>

record 'a Tensor =
  shape :: "nat list"
  flat :: "'a list"

definition dims :: "'a Tensor \<Rightarrow> nat" where
  "dims t = length (shape t)"

definition dim_size :: "'a Tensor \<Rightarrow> nat \<Rightarrow> nat option" where
  "dim_size t d = (if d < dims t then Some (shape t ! d) else None)"

definition Slice :: "'a Tensor \<Rightarrow> nat \<Rightarrow> nat \<Rightarrow> 'a Tensor option" where
  "Slice t start limit =
     (case shape t of
        [] \<Rightarrow> None
      | d0 # rest \<Rightarrow>
          if start \<le> limit \<and> limit \<le> d0
          then Some \<lparr>shape = (limit - start) # rest,
                     flat = take ((limit - start) * prod_list rest)
                              (drop (start * prod_list rest) (flat t))\<rparr>
          else None)"

definition element1 :: "'a Tensor \<Rightarrow> nat \<Rightarrow> 'a option" where
  "element1 t j = (if j < length (flat t) then Some (flat t ! j) else None)"

text \<open>\<^verbatim>\<open>static_cast<int32>\<close> of a 64-bit dimension size: two's complement wrap-around.\<close>

definition int32_cast :: "int \<Rightarrow> int" where
  "int32_cast x = (x + 2 ^ 31) mod 2 ^ 32 - 2 ^ 31"

subsection \<open>Configuration, collaborators and outcomes\<close>

text \<open>The four attributes read by the constructor of the kernel.\<close>

record config =
  layer_num :: int
  max_nodes :: int
  num_features_per_node :: int
  random_seed :: int

text \<open>
  The functions the kernel calls and whose code is not part of the unit: they are
  parameters of the model.
  \<^item> \<open>CheckTensorBounds\<close> (\<^verbatim>\<open>tree_utils.h\<close>): \<open>False\<close> when it has reported a
    failure to the context.
  \<^item> \<open>GetFeatureSet\<close> (\<^verbatim>\<open>utils.h\<close>): the feature indices it leaves in the vector
    that the kernel has just cleared, as a function of its five integer arguments.
  \<^item> \<open>LeftProbabilityK\<close> (\<^verbatim>\<open>utils.h\<close>): the probability of going left, from the
    row, the feature set, the node's weights, the node's bias and the two counts.
  \<^item> \<open>allocate_output\<close>: whether the runtime can allocate an output of this shape.
\<close>

record 'a externals =
  CheckTensorBounds :: "'a Tensor \<Rightarrow> bool"
  GetFeatureSet :: "int \<Rightarrow> int \<Rightarrow> int \<Rightarrow> int \<Rightarrow> int \<Rightarrow> int list"
  LeftProbabilityK :: "'a Tensor \<Rightarrow> int list \<Rightarrow> 'a Tensor \<Rightarrow> 'a \<Rightarrow> int \<Rightarrow> int \<Rightarrow> 'a"
  allocate_output :: "nat list \<Rightarrow> bool"

text \<open>
  How a call can end without an output.
  \<^item> \<open>InvalidArgument\<close>: the status set by \<^verbatim>\<open>OP_REQUIRES\<close>.
  \<^item> \<open>TensorBoundsFailure\<close>: \<open>CheckTensorBounds\<close> returned false.
  \<^item> \<open>AllocationFailure\<close>: \<^verbatim>\<open>OP_REQUIRES_OK\<close> on \<open>allocate_output\<close>.
  \<^item> \<open>CheckFailure\<close>: a requirement of a framework call is violated (a dimension
    that does not exist, a negative dimension added to a shape, a slice outside the
    tensor, a tensor viewed with the wrong rank).
  \<^item> \<open>OutOfBounds\<close>: an element access outside the buffer.
  \<^item> \<open>UninitializedRead\<close>: a read of an output element that was never written.
\<close>

datatype failure =
    InvalidArgument string
  | TensorBoundsFailure
  | AllocationFailure
  | CheckFailure
  | OutOfBounds
  | UninitializedRead

text \<open>
  The state of the two loops: the two-dimensional view \<open>out_probs\<close> of the output
  buffer, one list per row, where \<open>None\<close> is an element of the freshly allocated buffer
  that has not been written yet; the vector \<open>feature_set\<close>; and the arguments of every
  call of \<open>GetFeatureSet\<close> so far, in order.
\<close>

record 'a loop_state =
  out_probs :: "'a option list list"
  feature_set :: "int list"
  selector_calls :: "(int \<times> int \<times> int \<times> int \<times> int) list"

definition read_out :: "'a option list list \<Rightarrow> nat \<Rightarrow> nat \<Rightarrow> failure + 'a" where
  "read_out ps i k =
     (if i < length ps \<and> k < length (ps ! i)
      then (case ps ! i ! k of None \<Rightarrow> Inl UninitializedRead | Some v \<Rightarrow> Inr v)
      else Inl OutOfBounds)"

definition write_out :: "'a option list list \<Rightarrow> nat \<Rightarrow> nat \<Rightarrow> 'a \<Rightarrow> failure + 'a option list list" where
  "write_out ps i k v =
     (if i < length ps \<and> k < length (ps ! i)
      then Inr (ps[i := (ps ! i)[k := Some v]])
      else Inl OutOfBounds)"

subsection \<open>The kernel\<close>

text \<open>
  Lines 147 to 149: the weights of node \<open>j\<close> are the slice \<open>[j, j+1)\<close> of the
  parameters, its bias is element \<open>j\<close> of the biases.
\<close>

definition left_probability ::
  "'a externals \<Rightarrow> config \<Rightarrow> 'a Tensor \<Rightarrow> int list \<Rightarrow> 'a Tensor \<Rightarrow> 'a Tensor \<Rightarrow> int \<Rightarrow> nat
     \<Rightarrow> failure + 'a" where
  "left_probability ext cfg point fs tree_parameters tree_biases num_features j =
     (case Slice tree_parameters j (j + 1) of
        None \<Rightarrow> Inl CheckFailure
      | Some w \<Rightarrow>
          (case element1 tree_biases j of
             None \<Rightarrow> Inl OutOfBounds
           | Some b \<Rightarrow>
               Inr (LeftProbabilityK ext point fs w b num_features
                      (num_features_per_node cfg))))"

text \<open>Lines 139 to 152: the body of the loop over the nodes, for row \<open>i\<close> and node \<open>j\<close>.\<close>

definition node_body ::
  "'a::{one,times,minus} externals \<Rightarrow> config \<Rightarrow> 'a Tensor \<Rightarrow> 'a Tensor \<Rightarrow> 'a Tensor \<Rightarrow> int
     \<Rightarrow> nat \<Rightarrow> nat \<Rightarrow> 'a loop_state \<Rightarrow> failure + 'a loop_state" where
  "node_body ext cfg point tree_parameters tree_biases num_features i j st =
     (let args = (layer_num cfg, int i, random_seed cfg, num_features,
                  num_features_per_node cfg);
          fs = GetFeatureSet ext (layer_num cfg) (int i) (random_seed cfg) num_features
                 (num_features_per_node cfg);
          st1 = st\<lparr>feature_set := fs, selector_calls := selector_calls st @ [args]\<rparr>;
          left_child = 2 * j + 1;
          right_child = left_child + 1
      in case read_out (out_probs st1) i j of
           Inl e \<Rightarrow> Inl e
         | Inr prob \<Rightarrow>
             (case left_probability ext cfg point fs tree_parameters tree_biases
                     num_features j of
                Inl e \<Rightarrow> Inl e
              | Inr left_prob \<Rightarrow>
                  (case write_out (out_probs st1) i left_child (prob * left_prob) of
                     Inl e \<Rightarrow> Inl e
                   | Inr ps1 \<Rightarrow>
                       (case write_out ps1 i right_child (prob * (1 - left_prob)) of
                          Inl e \<Rightarrow> Inl e
                        | Inr ps2 \<Rightarrow> Inr (st1\<lparr>out_probs := ps2\<rparr>)))))"

text \<open>Line 138: \<^verbatim>\<open>for (int j = 0; j < max_nodes_ / 2; j++)\<close>, from \<open>j\<close> on.\<close>

function node_loop ::
  "'a::{one,times,minus} externals \<Rightarrow> config \<Rightarrow> 'a Tensor \<Rightarrow> 'a Tensor \<Rightarrow> 'a Tensor \<Rightarrow> int
     \<Rightarrow> nat \<Rightarrow> nat \<Rightarrow> 'a loop_state \<Rightarrow> failure + 'a loop_state" where
  "node_loop ext cfg point tree_parameters tree_biases num_features i j st =
     (if int j < max_nodes cfg sdiv 2
      then (case node_body ext cfg point tree_parameters tree_biases num_features i j st of
              Inl e \<Rightarrow> Inl e
            | Inr st' \<Rightarrow>
                node_loop ext cfg point tree_parameters tree_biases num_features i (j + 1) st')
      else Inr st)"
  by pat_completeness auto
termination
  by (relation "measure (\<lambda>(ext, cfg, point, tp, tb, nf, i, j, st). nat (max_nodes cfg sdiv 2) - j)")
     auto

text \<open>Lines 133 to 154: \<^verbatim>\<open>for (int i = 0; i < num_data; i++)\<close>, from \<open>i\<close> on.\<close>

function row_loop ::
  "'a::{one,times,minus} externals \<Rightarrow> config \<Rightarrow> 'a Tensor \<Rightarrow> 'a Tensor \<Rightarrow> 'a Tensor \<Rightarrow> int
     \<Rightarrow> int \<Rightarrow> nat \<Rightarrow> 'a loop_state \<Rightarrow> failure + 'a loop_state" where
  "row_loop ext cfg input_data tree_parameters tree_biases num_data num_features i st =
     (if int i < num_data
      then (case Slice input_data i (i + 1) of
              None \<Rightarrow> Inl CheckFailure
            | Some point \<Rightarrow>
                (case write_out (out_probs st) i 0 1 of
                   Inl e \<Rightarrow> Inl e
                 | Inr ps \<Rightarrow>
                     (case node_loop ext cfg point tree_parameters tree_biases num_features
                             i 0 (st\<lparr>out_probs := ps\<rparr>) of
                        Inl e \<Rightarrow> Inl e
                      | Inr st' \<Rightarrow>
                          row_loop ext cfg input_data tree_parameters tree_biases num_data
                            num_features (i + 1) st')))
      else Inr st)"
  by pat_completeness auto
termination
  by (relation "measure (\<lambda>(ext, cfg, inp, tp, tb, nd, nf, i, st). nat nd - i)") auto

text \<open>What a successful call hands back: the shape of the output and the final state.\<close>

record 'a kernel_output =
  output_shape :: "nat list"
  probabilities :: "'a option list list"
  feature_set_calls :: "(int \<times> int \<times> int \<times> int \<times> int) list"

text \<open>
  Lines 102 to 155. The order of the source is kept: the rank check guarded by the first
  dimension, the bounds check, the two counts, the output shape and its allocation, the
  two views, the loops.
\<close>

definition Compute ::
  "'a::{one,times,minus} externals \<Rightarrow> config \<Rightarrow> 'a Tensor \<Rightarrow> 'a Tensor \<Rightarrow> 'a Tensor
     \<Rightarrow> failure + 'a kernel_output" where
  "Compute ext cfg input_data tree_parameters_tensor tree_biases_tensor =
     (case dim_size input_data 0 of
        None \<Rightarrow> Inl CheckFailure
      | Some d0 \<Rightarrow>
          if d0 > 0 \<and> dims input_data \<noteq> 2
          then Inl (InvalidArgument ''input_data should be two-dimensional'')
          else if \<not> CheckTensorBounds ext input_data then Inl TensorBoundsFailure
          else
            (case dim_size input_data 1 of
               None \<Rightarrow> Inl CheckFailure
             | Some d1 \<Rightarrow>
                 let num_data = int32_cast (int d0);
                     num_features = int32_cast (int d1)
                 in if num_data < 0 \<or> max_nodes cfg < 0 then Inl CheckFailure
                    else let output_shape = [nat num_data, nat (max_nodes cfg)]
                      in if \<not> allocate_output ext output_shape then Inl AllocationFailure
                         else if dims tree_biases_tensor \<noteq> 1 then Inl CheckFailure
                         else
                           (case row_loop ext cfg input_data tree_parameters_tensor
                                   tree_biases_tensor num_data num_features 0
                                   \<lparr>out_probs = replicate (nat num_data)
                                                  (replicate (nat (max_nodes cfg)) None),
                                    feature_set = [],
                                    selector_calls = []\<rparr> of
                              Inl e \<Rightarrow> Inl e
                            | Inr st \<Rightarrow>
                                Inr \<lparr>output_shape = output_shape,
                                     probabilities = out_probs st,
                                     feature_set_calls = selector_calls st\<rparr>)))"

subsection \<open>Quantities the statements refer to\<close>

text \<open>
  The number of internal nodes the inner loop visits, \<^verbatim>\<open>max_nodes_ / 2\<close>; the
  number of features the kernel reads from the input (line 117); the argument tuple and
  the result of the call of \<open>GetFeatureSet\<close> made for row \<open>i\<close> (line 140).
\<close>

definition internal_nodes :: "config \<Rightarrow> nat" where
  "internal_nodes cfg = nat (max_nodes cfg sdiv 2)"

definition num_features_of :: "'a Tensor \<Rightarrow> int" where
  "num_features_of input_data = int32_cast (int (shape input_data ! 1))"

definition selector_args :: "config \<Rightarrow> int \<Rightarrow> nat \<Rightarrow> int \<times> int \<times> int \<times> int \<times> int" where
  "selector_args cfg nf i =
     (layer_num cfg, int i, random_seed cfg, nf, num_features_per_node cfg)"

definition row_feature_set :: "'a externals \<Rightarrow> config \<Rightarrow> int \<Rightarrow> nat \<Rightarrow> int list" where
  "row_feature_set ext cfg nf i =
     GetFeatureSet ext (layer_num cfg) (int i) (random_seed cfg) nf (num_features_per_node cfg)"

text \<open>
  Following the spec's words (glossary, "routing probability": the product of the split
  probabilities along the path from the root): the parent of node \<open>k > 0\<close> is
  \<open>(k - 1) div 2\<close>, an odd \<open>k\<close> is a left child and takes the factor \<open>lp\<close> of its
  parent, an even one is a right child and takes \<open>1 - lp\<close>. The product is taken from
  the root downwards, in the order in which the kernel multiplies.
\<close>

function path_product :: "(nat \<Rightarrow> 'a::{one,times,minus}) \<Rightarrow> nat \<Rightarrow> 'a" where
  "path_product lp k =
     (if k = 0 then 1
      else path_product lp ((k - 1) div 2) *
             (if odd k then lp ((k - 1) div 2) else 1 - lp ((k - 1) div 2)))"
  by pat_completeness auto
termination
  by (relation "measure snd") auto

text \<open>
  A call the spec regards as valid: the input is a matrix with fewer than \<open>2^31\<close> rows
  that passes the bounds check, \<open>max_nodes\<close> is the capacity of a complete binary tree
  (positive and odd), the output can be allocated, the biases are a vector and the
  parameters have a first dimension, each with an entry for every internal node.
\<close>

definition valid_call ::
  "'a externals \<Rightarrow> config \<Rightarrow> 'a Tensor \<Rightarrow> 'a Tensor \<Rightarrow> 'a Tensor \<Rightarrow> bool" where
  "valid_call ext cfg input_data tree_parameters tree_biases \<longleftrightarrow>
     dims input_data = 2 \<and> shape input_data ! 0 < 2 ^ 31 \<and>
     CheckTensorBounds ext input_data \<and>
     0 < max_nodes cfg \<and> odd (max_nodes cfg) \<and>
     allocate_output ext [shape input_data ! 0, nat (max_nodes cfg)] \<and>
     dims tree_biases = 1 \<and> internal_nodes cfg \<le> length (flat tree_biases) \<and>
     1 \<le> dims tree_parameters \<and> internal_nodes cfg \<le> shape tree_parameters ! 0"

text \<open>
  The closed unit interval, on any type with an order, \<open>0\<close> and \<open>1\<close>.
\<close>

definition unit_interval :: "'a::{zero,one,ord} \<Rightarrow> bool" where
  "unit_interval x \<longleftrightarrow> 0 \<le> x \<and> x \<le> 1"

subsection \<open>The arithmetic of float\<close>

text \<open>
  The C++ type \<^verbatim>\<open>float\<close> is IEEE 754 binary32, and every operation of the kernel is
  rounded to nearest, ties to even. A finite value is kept as the rational number it
  denotes (the sign of a zero is dropped: no operation of the kernel observes it), so
  the equality of two finite values is the \<^verbatim>\<open>==\<close> of C++. An operation on finite values
  is the exact operation followed by \<open>round32\<close>: the exponent \<open>e\<close> of the exact result,
  not below \<open>-126\<close> (below it the values are subnormal), the quantum \<open>2^(e-23)\<close> of the
  24-bit significand, the nearest multiple of the quantum and the overflow to infinity
  from \<open>2^128\<close> on. \<open>Infinity True\<close> is the negative infinity; a comparison with
  \<open>NaN\<close> is false.
\<close>

datatype float32 = Finite rat | Infinity bool | NaN

definition pow2 :: "int \<Rightarrow> rat" where
  "pow2 e = (if 0 \<le> e then 2 ^ nat e else 1 / 2 ^ nat (- e))"

definition exponent32 :: "rat \<Rightarrow> int" where
  "exponent32 x =
     (if 1 \<le> \<bar>x\<bar> then bitlen \<lfloor>\<bar>x\<bar>\<rfloor> - 1 else - bitlen (\<lceil>1 / \<bar>x\<bar>\<rceil> - 1))"

definition round_half_even :: "rat \<Rightarrow> int" where
  "round_half_even z =
     (let f = \<lfloor>z\<rfloor>; d = z - of_int f
      in if d < 1 / 2 then f else if 1 / 2 < d then f + 1 else if even f then f else f + 1)"

definition round32 :: "rat \<Rightarrow> float32" where
  "round32 x =
     (if x = 0 then Finite 0
      else let e = max (exponent32 x) (- 126);
               q = pow2 (e - 23);
               y = of_int (round_half_even (x / q)) * q
           in if 2 ^ 128 \<le> \<bar>y\<bar> then Infinity (x < 0) else Finite y)"

fun mul32 :: "float32 \<Rightarrow> float32 \<Rightarrow> float32" where
  "mul32 NaN b = NaN"
| "mul32 a NaN = NaN"
| "mul32 (Infinity s) (Infinity t) = Infinity (s \<noteq> t)"
| "mul32 (Infinity s) (Finite b) = (if b = 0 then NaN else Infinity (s \<noteq> (b < 0)))"
| "mul32 (Finite a) (Infinity t) = (if a = 0 then NaN else Infinity ((a < 0) \<noteq> t))"
| "mul32 (Finite a) (Finite b) = round32 (a * b)"

fun add32 :: "float32 \<Rightarrow> float32 \<Rightarrow> float32" where
  "add32 NaN b = NaN"
| "add32 a NaN = NaN"
| "add32 (Infinity s) (Infinity t) = (if s = t then Infinity s else NaN)"
| "add32 (Infinity s) (Finite b) = Infinity s"
| "add32 (Finite a) (Infinity t) = Infinity t"
| "add32 (Finite a) (Finite b) = round32 (a + b)"

fun sub32 :: "float32 \<Rightarrow> float32 \<Rightarrow> float32" where
  "sub32 NaN b = NaN"
| "sub32 a NaN = NaN"
| "sub32 (Infinity s) (Infinity t) = (if s = t then NaN else Infinity s)"
| "sub32 (Infinity s) (Finite b) = Infinity s"
| "sub32 (Finite a) (Infinity t) = Infinity (\<not> t)"
| "sub32 (Finite a) (Finite b) = round32 (a - b)"

fun le32 :: "float32 \<Rightarrow> float32 \<Rightarrow> bool" where
  "le32 NaN b = False"
| "le32 a NaN = False"
| "le32 (Infinity s) (Infinity t) = (s \<or> \<not> t)"
| "le32 (Infinity s) (Finite b) = s"
| "le32 (Finite a) (Infinity t) = (\<not> t)"
| "le32 (Finite a) (Finite b) = (a \<le> b)"

fun less32 :: "float32 \<Rightarrow> float32 \<Rightarrow> bool" where
  "less32 NaN b = False"
| "less32 a NaN = False"
| "less32 (Infinity s) (Infinity t) = (s \<and> \<not> t)"
| "less32 (Infinity s) (Finite b) = s"
| "less32 (Finite a) (Infinity t) = (\<not> t)"
| "less32 (Finite a) (Finite b) = (a < b)"

instantiation float32 :: "{zero,one,plus,minus,times,ord}"
begin
definition zero_float32 :: float32 where
  "zero_float32 = Finite 0"
definition less_eq_float32 :: "float32 \<Rightarrow> float32 \<Rightarrow> bool" where
  "less_eq_float32 a b = le32 a b"
definition less_float32 :: "float32 \<Rightarrow> float32 \<Rightarrow> bool" where
  "less_float32 a b = less32 a b"
definition one_float32 :: float32 where
  "one_float32 = Finite 1"
definition plus_float32 :: "float32 \<Rightarrow> float32 \<Rightarrow> float32" where
  "plus_float32 a b = add32 a b"
definition minus_float32 :: "float32 \<Rightarrow> float32 \<Rightarrow> float32" where
  "minus_float32 a b = sub32 a b"
definition times_float32 :: "float32 \<Rightarrow> float32 \<Rightarrow> float32" where
  "times_float32 a b = mul32 a b"
instance ..
end

text \<open>
  A finite value between \<open>0\<close> and \<open>1\<close>.
\<close>

definition is_probability :: "float32 \<Rightarrow> bool" where
  "is_probability v = (case v of Finite q \<Rightarrow> 0 \<le> q \<and> q \<le> 1 | Infinity s \<Rightarrow> False | NaN \<Rightarrow> False)"

subsection \<open>Example calls\<close>

text \<open>
  A tree of seven nodes on two rows of two features. The stand-in for
  \<open>GetFeatureSet\<close> selects the feature \<open>index mod num_features\<close>; the one for
  \<open>LeftProbabilityK\<close> adds to the bias of the node a tenth of the product of the
  node's first weight and the selected feature of the row, clamped to the unit interval,
  so that it depends on the row, the feature set, the weights and the bias; the one for
  \<open>CheckTensorBounds\<close> accepts dimensions below \<open>2^31 - 1\<close>. The other inputs
  are a batch of three rows whose row 1 is row 1 of the first batch, a three-dimensional
  batch and an empty batch.
\<close>

definition example_externals :: "rat externals" where
  "example_externals =
     \<lparr>CheckTensorBounds = (\<lambda>t. list_all (\<lambda>d. d < 2147483647) (shape t)),
      GetFeatureSet = (\<lambda>layer index seed num_features k. [index mod num_features]),
      LeftProbabilityK =
        (\<lambda>point fs w b num_features k.
           max 0 (min 1 (b + hd (flat w) * (flat point ! nat (hd fs)) / 10))),
      allocate_output = (\<lambda>sh. True)\<rparr>"

definition example_config :: config where
  "example_config =
     \<lparr>layer_num = 0, max_nodes = 7, num_features_per_node = 2, random_seed = 42\<rparr>"

definition example_input :: "rat Tensor" where
  "example_input = \<lparr>shape = [2, 2], flat = [1, 0, 3, 4]\<rparr>"

definition example_parameters :: "rat Tensor" where
  "example_parameters = \<lparr>shape = [3, 2], flat = [1 / 2, - 1 / 2, 1, 0, 0, 1]\<rparr>"

definition example_biases :: "rat Tensor" where
  "example_biases = \<lparr>shape = [3], flat = [3 / 5, 1 / 2, 1 / 4]\<rparr>"

definition example_wider_input :: "rat Tensor" where
  "example_wider_input = \<lparr>shape = [3, 2], flat = [9, 9, 3, 4, 7, 7]\<rparr>"

definition example_cube_input :: "rat Tensor" where
  "example_cube_input = \<lparr>shape = [3, 2, 2], flat = [1, 2, 3, 4, 5, 6, 7, 8, 9, 10, 11, 12]\<rparr>"

definition example_empty_input :: "rat Tensor" where
  "example_empty_input = \<lparr>shape = [0, 2], flat = []\<rparr>"

text \<open>
  A call in binary32: one row, seven nodes, and a stand-in for \<open>LeftProbabilityK\<close>
  that returns \<^verbatim>\<open>0.8f\<close>, the binary32 value nearest to \<open>0.8\<close>, at every node.
\<close>

definition f32_externals :: "float32 externals" where
  "f32_externals =
     \<lparr>CheckTensorBounds = (\<lambda>t. list_all (\<lambda>d. d < 2147483647) (shape t)),
      GetFeatureSet = (\<lambda>layer index seed num_features k. [index mod num_features]),
      LeftProbabilityK = (\<lambda>point fs w b num_features k. Finite (13421773 / 16777216)),
      allocate_output = (\<lambda>sh. True)\<rparr>"

definition f32_input :: "float32 Tensor" where
  "f32_input = \<lparr>shape = [1, 2], flat = [Finite 1, Finite 0]\<rparr>"

definition f32_parameters :: "float32 Tensor" where
  "f32_parameters =
     \<lparr>shape = [3, 2],
      flat = [Finite (1 / 2), Finite (- 1 / 2), Finite 1, Finite 0, Finite 0, Finite 1]\<rparr>"

definition f32_biases :: "float32 Tensor" where
  "f32_biases = \<lparr>shape = [3], flat = [Finite 0, Finite 0, Finite 0]\<rparr>"

section \<open>Properties\<close>

declare path_product.simps [simp del]
declare node_loop.simps [simp del]
declare row_loop.simps [simp del]

subsection \<open>Arithmetic and tensors\<close>

lemma int32_cast_id: "0 \<le> x \<Longrightarrow> x < 2 ^ 31 \<Longrightarrow> int32_cast x = x"
  by (simp add: int32_cast_def)

lemma sdiv_two_nonneg: "0 \<le> (a::int) \<Longrightarrow> a sdiv 2 = a div 2"
  by (simp add: signed_divide_int_def sgn_if)

lemma Slice_row:
  "1 \<le> dims t \<Longrightarrow> i < shape t ! 0 \<Longrightarrow> \<exists>p. Slice t i (i + 1) = Some p"
  by (cases "shape t") (simp_all add: Slice_def dims_def)

lemma Slice_shape:
  "Slice t a b = Some p \<Longrightarrow> shape p = (b - a) # tl (shape t)"
  by (cases "shape t") (auto simp: Slice_def split: if_splits)

lemma rank2_second: "dims t = 2 \<Longrightarrow> shape t ! 1 = hd (tl (shape t))"
  by (cases "shape t"; cases "tl (shape t)") (auto simp: dims_def)

lemma left_probability_Inr:
  assumes "1 \<le> dims tp" "j < shape tp ! 0" "j < length (flat tb)"
  shows "\<exists>l. left_probability ext cfg point fs tp tb nf j = Inr l"
proof -
  obtain w where "Slice tp j (j + 1) = Some w"
    using Slice_row assms(1,2) by blast
  then show ?thesis
    using assms(3) by (simp add: left_probability_def element1_def)
qed

subsection \<open>The product along a path\<close>

lemma path_product_root: "path_product lp 0 = 1"
  by (simp add: path_product.simps)

lemma path_product_left: "path_product lp (2 * j + 1) = path_product lp j * lp j"
  by (subst path_product.simps) simp

lemma path_product_right: "path_product lp (2 * j + 2) = path_product lp j * (1 - lp j)"
  by (subst path_product.simps) simp

lemma path_product_Suc:
  "path_product lp (Suc (2 * j)) = path_product lp j * lp j"
  "path_product lp (Suc (Suc (2 * j))) = path_product lp j * (1 - lp j)"
  using path_product_left [of lp j] path_product_right [of lp j] by simp_all

lemma path_product_cong:
  "(\<And>j. 2 * j + 1 \<le> k \<Longrightarrow> f j = g j) \<Longrightarrow> path_product f k = path_product g k"
proof (induction k rule: less_induct)
  case (less k)
  show ?case
  proof (cases "k = 0")
    case True
    then show ?thesis by (simp add: path_product_root)
  next
    case False
    define j where "j = (k - 1) div 2"
    have jk: "2 * j + 1 \<le> k" using False by (simp add: j_def) 
    have "j < k" using jk by simp
    moreover have "\<And>j'. 2 * j' + 1 \<le> j \<Longrightarrow> f j' = g j'"
      using less.prems jk by simp
    ultimately have ih: "path_product f j = path_product g j"
      using less.IH by blast
    have fg: "f j = g j" using less.prems jk by simp
    have "path_product f k = path_product f j * (if odd k then f j else 1 - f j)"
      by (subst path_product.simps) (simp add: False j_def)
    moreover have "path_product g k = path_product g j * (if odd k then g j else 1 - g j)"
      by (subst path_product.simps) (simp add: False j_def)
    ultimately show ?thesis
      by (simp add: ih fg)
  qed
qed

lemma path_product_closed:
  fixes lp :: "nat \<Rightarrow> 'a::{one,times,minus}"
  assumes one: "P (1::'a)"
    and mul: "\<And>a b::'a. P a \<Longrightarrow> P b \<Longrightarrow> P (a * b)"
    and sub: "\<And>b::'a. P b \<Longrightarrow> P (1 - b)"
    and lp: "\<And>j. 2 * j + 1 \<le> k \<Longrightarrow> P (lp j)"
  shows "P (path_product lp k)"
  using lp
proof (induction k rule: less_induct)
  case (less k)
  show ?case
  proof (cases "k = 0")
    case True
    then show ?thesis by (simp add: path_product_root one)
  next
    case False
    define j where "j = (k - 1) div 2"
    have jk: "2 * j + 1 \<le> k" using False by (simp add: j_def)
    have "j < k" using jk by simp
    moreover have "\<And>j'. 2 * j' + 1 \<le> j \<Longrightarrow> P (lp j')"
      using less.prems jk by simp
    ultimately have ih: "P (path_product lp j)"
      using less.IH by blast
    have l: "P (lp j)" using less.prems jk by simp
    have "path_product lp k = path_product lp j * (if odd k then lp j else 1 - lp j)"
      by (subst path_product.simps) (simp add: False j_def)
    then show ?thesis
      using ih l mul sub by simp
  qed
qed

subsection \<open>Rounding to binary32\<close>

text \<open>
  Rounding a number of the unit interval gives a finite value of the unit interval, at
  most \<open>2^-25\<close> away: half a quantum of the values below \<open>1\<close>.
\<close>

lemma pow2_pos: "0 < pow2 e"
  by (simp add: pow2_def)

lemma pow2_small:
  assumes "e \<le> - 24"
  shows "pow2 e \<le> 1 / 2 ^ 24"
proof -
  have "(2::rat) ^ 24 \<le> 2 ^ nat (- e)"
    using assms by (intro power_increasing) simp_all
  then show ?thesis
    using assms by (simp add: pow2_def frac_le)
qed

lemma inverse_pow2:
  assumes "e \<le> 0"
  shows "1 / pow2 e = of_int (2 ^ nat (- e))"
  using assms by (cases "e = 0") (simp_all add: pow2_def)

lemma round_half_even_error: "\<bar>of_int (round_half_even z) - z\<bar> \<le> 1 / 2"
proof -
  have "of_int \<lfloor>z\<rfloor> \<le> z" and "z < of_int \<lfloor>z\<rfloor> + 1" by linarith+
  then show ?thesis
    by (auto simp: round_half_even_def Let_def)
qed

lemma round_half_even_nonneg:
  assumes "0 \<le> z"
  shows "0 \<le> round_half_even z"
proof -
  have "0 \<le> \<lfloor>z\<rfloor>" using assms by simp
  then show ?thesis by (auto simp: round_half_even_def Let_def)
qed

lemma round_half_even_le:
  assumes "z \<le> of_int N"
  shows "round_half_even z \<le> N"
proof (cases "z = of_int N")
  case True
  then show ?thesis by (simp add: round_half_even_def Let_def)
next
  case False
  then have "z < of_int N" using assms by simp
  then have "\<lfloor>z\<rfloor> < N" by (simp add: floor_less_iff)
  then show ?thesis by (auto simp: round_half_even_def Let_def)
qed

lemma exponent32_below_one:
  assumes "0 < x" and "x < 1"
  shows "exponent32 x \<le> - 1"
proof -
  have "1 < 1 / x" using assms by simp
  then have "2 \<le> \<lceil>1 / x\<rceil>" by (simp add: le_ceiling_iff)
  then have "0 < \<lceil>1 / x\<rceil> - 1" by simp
  then have "bitlen (\<lceil>1 / x\<rceil> - 1) \<noteq> 0" by (simp add: bitlen_eq_zero_iff)
  then have "1 \<le> bitlen (\<lceil>1 / x\<rceil> - 1)"
    using bitlen_nonneg [of "\<lceil>1 / x\<rceil> - 1"] by linarith
  then show ?thesis
    using assms by (simp add: exponent32_def)
qed

lemma round32_one: "round32 1 = Finite 1"
  by code_simp

lemma round32_probability:
  assumes "0 \<le> x" and "x \<le> 1"
  shows "\<exists>y. round32 x = Finite y \<and> 0 \<le> y \<and> y \<le> 1 \<and> \<bar>y - x\<bar> \<le> 1 / 2 ^ 25"
proof -
  consider "x = 0" | "x = 1" | "0 < x" "x < 1" using assms by force
  then show ?thesis
  proof cases
    case 1
    then show ?thesis by (simp add: round32_def)
  next
    case 2
    then show ?thesis by (simp add: round32_one)
  next
    case 3
    define e where "e = max (exponent32 x) (- 126)"
    define q where "q = pow2 (e - 23)"
    define n where "n = round_half_even (x / q)"
    define y where "y = of_int n * q"
    have e: "e \<le> - 1" using exponent32_below_one [OF 3] by (simp add: e_def)
    have q0: "0 < q" by (simp add: q_def pow2_pos)
    have q24: "q \<le> 1 / 2 ^ 24" unfolding q_def using e by (intro pow2_small) simp
    have "\<bar>of_int n - x / q\<bar> \<le> 1 / 2" unfolding n_def by (rule round_half_even_error)
    then have "\<bar>of_int n - x / q\<bar> * q \<le> 1 / 2 * q"
      using q0 by (intro mult_right_mono) simp_all
    moreover have "\<bar>of_int n - x / q\<bar> * q = \<bar>y - x\<bar>"
    proof -
      have "\<bar>of_int n - x / q\<bar> * q = \<bar>(of_int n - x / q) * q\<bar>"
        using q0 by (simp add: abs_mult)
      also have "(of_int n - x / q) * q = y - x"
        using q0 by (simp add: y_def algebra_simps)
      finally show ?thesis .
    qed
    ultimately have err: "\<bar>y - x\<bar> \<le> 1 / 2 ^ 25"
      using q24 by simp
    have "0 \<le> n" unfolding n_def using 3 q0 by (intro round_half_even_nonneg) simp
    then have y0: "0 \<le> y" using q0 by (simp add: y_def)
    have inv: "1 / q = of_int (2 ^ nat (- (e - 23)))"
      unfolding q_def using e by (intro inverse_pow2) simp
    have "x / q \<le> 1 / q" using 3 q0 by (simp add: divide_right_mono)
    then have "n \<le> 2 ^ nat (- (e - 23))"
      unfolding n_def inv by (rule round_half_even_le)
    then have "(of_int n :: rat) \<le> of_int (2 ^ nat (- (e - 23)))"
      by (simp only: of_int_le_iff)
    then have "of_int n \<le> 1 / q" by (simp only: inv)
    then have y1: "y \<le> 1" using q0 by (simp add: y_def pos_le_divide_eq)
    have fin: "\<not> 2 ^ 128 \<le> \<bar>y\<bar>" using y0 y1 by simp
    have "round32 x = Finite y"
      using 3 fin by (simp add: round32_def Let_def flip: e_def q_def n_def y_def)
    then show ?thesis using y0 y1 err by simp
  qed
qed

lemma is_probability_Finite: "is_probability (Finite q) \<longleftrightarrow> 0 \<le> q \<and> q \<le> 1"
  by (simp add: is_probability_def)

lemma is_probability_cases:
  assumes "is_probability v"
  obtains q where "v = Finite q" "0 \<le> q" "q \<le> 1"
  using assms by (cases v) (simp_all add: is_probability_def)

lemma is_probability_one: "is_probability 1"
  by (simp add: one_float32_def is_probability_def)

lemma is_probability_times:
  assumes "is_probability a" and "is_probability b"
  shows "is_probability (a * b)"
proof -
  obtain p where a: "a = Finite p" "0 \<le> p" "p \<le> 1"
    using assms(1) by (rule is_probability_cases)
  obtain q where b: "b = Finite q" "0 \<le> q" "q \<le> 1"
    using assms(2) by (rule is_probability_cases)
  have "0 \<le> p * q" and "p * q \<le> 1"
    using a b by (simp_all add: mult_le_one)
  then obtain y where "round32 (p * q) = Finite y" "0 \<le> y" "y \<le> 1"
    using round32_probability by blast
  then show ?thesis
    by (simp add: a b times_float32_def is_probability_def)
qed

lemma is_probability_complement:
  assumes "is_probability b"
  shows "is_probability (1 - b)"
proof -
  obtain q where b: "b = Finite q" "0 \<le> q" "q \<le> 1"
    using assms by (rule is_probability_cases)
  have "0 \<le> 1 - q" and "1 - q \<le> 1" using b by simp_all
  then obtain y where "round32 (1 - q) = Finite y" "0 \<le> y" "y \<le> 1"
    using round32_probability by blast
  then show ?thesis
    by (simp add: b minus_float32_def one_float32_def is_probability_def)
qed

lemma unit_interval_float32: "unit_interval v \<longleftrightarrow> is_probability v"
  by (cases v)
    (simp_all add: unit_interval_def is_probability_def less_eq_float32_def zero_float32_def
      one_float32_def)

lemma split_conserves_up_to_rounding:
  assumes a: "0 \<le> a" "a \<le> 1" and l: "0 \<le> l" "l \<le> 1"
  shows "\<exists>b c. Finite a * Finite l = Finite b \<and> Finite a * (1 - Finite l) = Finite c \<and>
           \<bar>b + c - a\<bar> \<le> 3 / 2 ^ 25"
proof -
  have "0 \<le> a * l" and "a * l \<le> 1" using a l by (simp_all add: mult_le_one)
  then obtain b where b: "round32 (a * l) = Finite b" "\<bar>b - a * l\<bar> \<le> 1 / 2 ^ 25"
    using round32_probability by blast
  have "0 \<le> 1 - l" and "1 - l \<le> 1" using l by simp_all
  then obtain m where m: "round32 (1 - l) = Finite m" "0 \<le> m" "m \<le> 1"
      "\<bar>m - (1 - l)\<bar> \<le> 1 / 2 ^ 25"
    using round32_probability by blast
  have "0 \<le> a * m" and "a * m \<le> 1" using a m by (simp_all add: mult_le_one)
  then obtain c where c: "round32 (a * m) = Finite c" "\<bar>c - a * m\<bar> \<le> 1 / 2 ^ 25"
    using round32_probability by blast
  have "\<bar>a * (m - (1 - l))\<bar> = a * \<bar>m - (1 - l)\<bar>"
    using a by (simp add: abs_mult)
  also have "\<dots> \<le> 1 * (1 / 2 ^ 25)"
    using a m(4) by (intro mult_mono) simp_all
  finally have am: "\<bar>a * (m - (1 - l))\<bar> \<le> 1 / 2 ^ 25" by simp
  have "b + c - a = (b - a * l) + (c - a * m) + a * (m - (1 - l))"
    by (simp add: algebra_simps)
  then have "\<bar>b + c - a\<bar> \<le> \<bar>b - a * l\<bar> + \<bar>c - a * m\<bar> + \<bar>a * (m - (1 - l))\<bar>"
    by linarith
  then have "\<bar>b + c - a\<bar> \<le> 3 / 2 ^ 25"
    using b(2) c(2) am by linarith
  moreover have "Finite a * Finite l = Finite b"
    by (simp add: times_float32_def b)
  moreover have "Finite a * (1 - Finite l) = Finite c"
    by (simp add: times_float32_def minus_float32_def one_float32_def m c)
  ultimately show ?thesis by blast
qed

lemma f32_products:
  "(1::float32) * Finite (13421773 / 16777216) = Finite (13421773 / 16777216)"
  "(1::float32) - Finite (13421773 / 16777216) = Finite (3355443 / 16777216)"
  "Finite (13421773 / 16777216) * Finite (13421773 / 16777216) = Finite (10737419 / 16777216)"
  "Finite (13421773 / 16777216) * Finite (3355443 / 16777216) = Finite (5368709 / 33554432)"
  "Finite (10737419 / 16777216) + Finite (5368709 / 33554432) = Finite (6710887 / 8388608)"
  by code_simp+

subsection \<open>The loops\<close>

text \<open>
  One pass of the body of the inner loop, then the inner loop from node \<open>j\<close> on: when
  the row holds the path products of the nodes up to \<open>2j\<close>, the loop ends with the path
  products of all nodes in the row, leaves the other rows alone and has called the
  selector once for each remaining node. The outer loop is treated in the same way.
\<close>

lemma write_out_Inr:
  "i < length ps \<Longrightarrow> k < length (ps ! i) \<Longrightarrow>
     write_out ps i k v = Inr (ps[i := (ps ! i)[k := Some v]])"
  by (simp add: write_out_def)

lemma read_out_Inr:
  "i < length ps \<Longrightarrow> k < length (ps ! i) \<Longrightarrow> ps ! i ! k = Some v \<Longrightarrow> read_out ps i k = Inr v"
  by (simp add: read_out_def)

lemma node_body_step:
  assumes i: "i < length (out_probs st)"
    and len: "length (out_probs st ! i) = M"
    and rng: "2 * j + 2 < M"
    and rd: "out_probs st ! i ! j = Some p"
    and lp: "left_probability ext cfg point
               (GetFeatureSet ext (layer_num cfg) (int i) (random_seed cfg) nf
                  (num_features_per_node cfg)) tp tb nf j = Inr l"
  shows "node_body ext cfg point tp tb nf i j st =
           Inr (st\<lparr>feature_set := GetFeatureSet ext (layer_num cfg) (int i) (random_seed cfg) nf
                                   (num_features_per_node cfg),
                   selector_calls := selector_calls st @
                     [(layer_num cfg, int i, random_seed cfg, nf, num_features_per_node cfg)],
                   out_probs := (out_probs st)
                     [i := (out_probs st ! i)[2 * j + 1 := Some (p * l),
                                              2 * j + 2 := Some (p * (1 - l))]]\<rparr>)"
proof -
  have j: "j < length (out_probs st ! i)" using len rng by simp
  have r: "read_out (out_probs st) i j = Inr p"
    using i j rd by (rule read_out_Inr)
  show ?thesis
    using i len rng by (simp add: node_body_def Let_def r lp write_out_def)
qed

lemma node_loop_run:
  assumes H: "max_nodes cfg sdiv 2 = int H"
    and M: "M = 2 * H + 1"
    and lp: "\<forall>j<H. left_probability ext cfg point
               (GetFeatureSet ext (layer_num cfg) (int i) (random_seed cfg) nf
                  (num_features_per_node cfg)) tp tb nf j = Inr (lpf j)"
    and j: "j \<le> H"
    and i: "i < length (out_probs st)"
    and len: "length (out_probs st ! i) = M"
    and pre: "\<forall>k\<le>2 * j. out_probs st ! i ! k = Some (path_product lpf k)"
  shows "\<exists>st'. node_loop ext cfg point tp tb nf i j st = Inr st' \<and>
           length (out_probs st') = length (out_probs st) \<and>
           (\<forall>i'. i' \<noteq> i \<longrightarrow> out_probs st' ! i' = out_probs st ! i') \<and>
           out_probs st' ! i = map (\<lambda>k. Some (path_product lpf k)) [0..<M] \<and>
           selector_calls st' = selector_calls st @
             replicate (H - j)
               (layer_num cfg, int i, random_seed cfg, nf, num_features_per_node cfg)"
  using j i len pre
proof (induction "H - j" arbitrary: j st)
  case 0
  then have jH: "j = H" by simp
  have stop: "node_loop ext cfg point tp tb nf i j st = Inr st"
    by (subst node_loop.simps) (simp add: H jH)
  have row: "out_probs st ! i = map (\<lambda>k. Some (path_product lpf k)) [0..<M]"
  proof (rule nth_equalityI)
    show "length (out_probs st ! i) = length (map (\<lambda>k. Some (path_product lpf k)) [0..<M])"
      using "0.prems" by simp
  next
    fix k assume "k < length (out_probs st ! i)"
    then have "k \<le> 2 * j" using "0.prems" M jH by simp
    then show "out_probs st ! i ! k = map (\<lambda>k. Some (path_product lpf k)) [0..<M] ! k"
      using "0.prems" \<open>k < length (out_probs st ! i)\<close> by simp
  qed
  show ?case
    using stop row jH by simp
next
  case (Suc n)
  then have jH: "j < H" by simp
  define fs where "fs = GetFeatureSet ext (layer_num cfg) (int i) (random_seed cfg) nf
                          (num_features_per_node cfg)"
  define p where "p = path_product lpf j"
  define st1 where "st1 = st\<lparr>feature_set := fs,
                   selector_calls := selector_calls st @
                     [(layer_num cfg, int i, random_seed cfg, nf, num_features_per_node cfg)],
                   out_probs := (out_probs st)
                     [i := (out_probs st ! i)[2 * j + 1 := Some (p * lpf j),
                                              2 * j + 2 := Some (p * (1 - lpf j))]]\<rparr>"
  have rng: "2 * j + 2 < M" using jH M by simp
  have rd: "out_probs st ! i ! j = Some p"
    using Suc.prems(4) by (simp add: p_def)
  have body: "node_body ext cfg point tp tb nf i j st = Inr st1"
    unfolding st1_def fs_def
    using Suc.prems(2,3) rng rd lp jH by (intro node_body_step) auto
  have step: "node_loop ext cfg point tp tb nf i j st = node_loop ext cfg point tp tb nf i (j + 1) st1"
    by (subst node_loop.simps) (simp add: H jH body)
  have i1: "i < length (out_probs st1)" using Suc.prems(2) by (simp add: st1_def)
  have len1: "length (out_probs st1 ! i) = M" using Suc.prems(2,3) by (simp add: st1_def)
  have pre1: "\<forall>k\<le>2 * (j + 1). out_probs st1 ! i ! k = Some (path_product lpf k)"
  proof (intro allI impI)
    fix k assume k: "k \<le> 2 * (j + 1)"
    have "k \<le> 2 * j \<or> k = 2 * j + 1 \<or> k = 2 * j + 2" using k by arith
    then consider "k \<le> 2 * j" | "k = 2 * j + 1" | "k = 2 * j + 2" by blast
    then show "out_probs st1 ! i ! k = Some (path_product lpf k)"
    proof cases
      case 1
      then show ?thesis using Suc.prems(2,3,4) rng by (simp add: st1_def)
    next
      case 2
      then show ?thesis using Suc.prems(2,3) rng
        by (simp add: st1_def p_def path_product_Suc)
    next
      case 3
      then show ?thesis using Suc.prems(2,3) rng
        by (simp add: st1_def p_def path_product_Suc)
    qed
  qed
  have n: "n = H - (j + 1)" using Suc.hyps(2) by simp
  have j1: "j + 1 \<le> H" using jH by simp
  from Suc.hyps(1)[OF n j1 i1 len1 pre1]
  obtain st' where st': "node_loop ext cfg point tp tb nf i (j + 1) st1 = Inr st'"
    "length (out_probs st') = length (out_probs st1)"
    "\<forall>i'. i' \<noteq> i \<longrightarrow> out_probs st' ! i' = out_probs st1 ! i'"
    "out_probs st' ! i = map (\<lambda>k. Some (path_product lpf k)) [0..<M]"
    "selector_calls st' = selector_calls st1 @
             replicate (H - (j + 1))
               (layer_num cfg, int i, random_seed cfg, nf, num_features_per_node cfg)"
    by blast
  have rep: "H - j = Suc (H - (j + 1))" using jH by simp
  have run: "node_loop ext cfg point tp tb nf i j st = Inr st'"
    using step st'(1) by (simp only:)
  have length_kept: "length (out_probs st') = length (out_probs st)"
    using st'(2) by (simp add: st1_def)
  have others: "\<forall>i'. i' \<noteq> i \<longrightarrow> out_probs st' ! i' = out_probs st ! i'"
    using st'(3) by (simp add: st1_def)
  have calls: "selector_calls st' = selector_calls st @
             replicate (H - j)
               (layer_num cfg, int i, random_seed cfg, nf, num_features_per_node cfg)"
    using st'(5) by (simp add: st1_def rep)
  show ?case
    using run length_kept others st'(4) calls by blast
qed

lemma row_loop_run:
  assumes H: "max_nodes cfg sdiv 2 = int H"
    and M: "M = 2 * H + 1"
    and nd: "num_data = int N"
    and pts: "\<forall>i<N. Slice inp i (i + 1) = Some (pt i)"
    and lp: "\<forall>i<N. \<forall>j<H. left_probability ext cfg (pt i) (row_feature_set ext cfg nf i)
               tp tb nf j = Inr (lpf i j)"
    and i: "i \<le> N"
    and len: "length (out_probs st) = N"
    and lens: "\<forall>i'<N. length (out_probs st ! i') = M"
    and pre: "\<forall>i'<i. out_probs st ! i' = map (\<lambda>k. Some (path_product (lpf i') k)) [0..<M]"
  shows "\<exists>st'. row_loop ext cfg inp tp tb num_data nf i st = Inr st' \<and>
           out_probs st' = map (\<lambda>i'. map (\<lambda>k. Some (path_product (lpf i') k)) [0..<M]) [0..<N] \<and>
           selector_calls st' = selector_calls st @
             concat (map (\<lambda>i'. replicate H (selector_args cfg nf i')) [i..<N])"
  using i len lens pre
proof (induction "N - i" arbitrary: i st)
  case 0
  then have iN: "i = N" by simp
  have stop: "row_loop ext cfg inp tp tb num_data nf i st = Inr st"
    by (subst row_loop.simps) (simp add: nd iN)
  have "out_probs st = map (\<lambda>i'. map (\<lambda>k. Some (path_product (lpf i') k)) [0..<M]) [0..<N]"
    using "0.prems" iN by (intro nth_equalityI) simp_all
  then show ?case
    using stop iN by simp
next
  case (Suc n)
  then have iN: "i < N" by simp
  define ps where "ps = (out_probs st)[i := (out_probs st ! i)[0 := Some 1]]"
  define st0 where "st0 = st\<lparr>out_probs := ps\<rparr>"
  have sl: "Slice inp i (i + 1) = Some (pt i)" using pts iN by simp
  have w: "write_out (out_probs st) i 0 1 = Inr ps"
    using iN Suc.prems(2,3) M by (simp add: write_out_def ps_def)
  have i0: "i < length (out_probs st0)" using iN Suc.prems(2) by (simp add: st0_def ps_def)
  have len0: "length (out_probs st0 ! i) = M"
    using iN Suc.prems(2,3) by (simp add: st0_def ps_def)
  have pre0: "\<forall>k\<le>2 * 0. out_probs st0 ! i ! k = Some (path_product (lpf i) k)"
    using iN Suc.prems(2,3) M by (simp add: st0_def ps_def path_product_root)
  have lpi: "\<forall>j<H. left_probability ext cfg (pt i)
               (GetFeatureSet ext (layer_num cfg) (int i) (random_seed cfg) nf
                  (num_features_per_node cfg)) tp tb nf j = Inr (lpf i j)"
    using lp iN by (simp add: row_feature_set_def)
  from node_loop_run [where j = 0, OF H M lpi _ i0 len0 pre0]
  obtain st1 where st1: "node_loop ext cfg (pt i) tp tb nf i 0 st0 = Inr st1"
    "length (out_probs st1) = length (out_probs st0)"
    "\<forall>i'. i' \<noteq> i \<longrightarrow> out_probs st1 ! i' = out_probs st0 ! i'"
    "out_probs st1 ! i = map (\<lambda>k. Some (path_product (lpf i) k)) [0..<M]"
    "selector_calls st1 = selector_calls st0 @ replicate H (selector_args cfg nf i)"
    by (auto simp: selector_args_def)
  have step: "row_loop ext cfg inp tp tb num_data nf i st =
                row_loop ext cfg inp tp tb num_data nf (i + 1) st1"
    using sl by (subst row_loop.simps) (simp add: nd iN w st1(1) [unfolded st0_def])
  have n: "n = N - (i + 1)" using Suc.hyps(2) by simp
  have i1: "i + 1 \<le> N" using iN by simp
  have len1: "length (out_probs st1) = N"
    using st1(2) Suc.prems(2) by (simp add: st0_def ps_def)
  have lens1: "\<forall>i'<N. length (out_probs st1 ! i') = M"
  proof (intro allI impI)
    fix i' assume "i' < N"
    show "length (out_probs st1 ! i') = M"
    proof (cases "i' = i")
      case True
      then show ?thesis using st1(4) by simp
    next
      case False
      then show ?thesis
        using st1(3) Suc.prems(3) \<open>i' < N\<close> by (simp add: st0_def ps_def)
    qed
  qed
  have pre1: "\<forall>i'<i + 1. out_probs st1 ! i' = map (\<lambda>k. Some (path_product (lpf i') k)) [0..<M]"
  proof (intro allI impI)
    fix i' assume "i' < i + 1"
    show "out_probs st1 ! i' = map (\<lambda>k. Some (path_product (lpf i') k)) [0..<M]"
    proof (cases "i' = i")
      case True
      then show ?thesis using st1(4) by simp
    next
      case False
      then have "i' < i" using \<open>i' < i + 1\<close> by simp
      then show ?thesis
        using st1(3) Suc.prems(4) False by (simp add: st0_def ps_def)
    qed
  qed
  from Suc.hyps(1) [OF n i1 len1 lens1 pre1]
  obtain st' where st': "row_loop ext cfg inp tp tb num_data nf (i + 1) st1 = Inr st'"
    "out_probs st' = map (\<lambda>i'. map (\<lambda>k. Some (path_product (lpf i') k)) [0..<M]) [0..<N]"
    "selector_calls st' = selector_calls st1 @
             concat (map (\<lambda>i'. replicate H (selector_args cfg nf i')) [i + 1..<N])"
    by blast
  have run: "row_loop ext cfg inp tp tb num_data nf i st = Inr st'"
    using step st'(1) by (simp only:)
  have upt: "[i..<N] = i # [i + 1..<N]" using iN by (simp add: upt_conv_Cons)
  have calls: "selector_calls st' = selector_calls st @
             concat (map (\<lambda>i'. replicate H (selector_args cfg nf i')) [i..<N])"
    using st'(3) st1(5) by (simp add: upt st0_def)
  show ?case
    using run st'(2) calls by blast
qed

text \<open>
  The loops never set the status \<open>InvalidArgument\<close>.
\<close>

lemma node_loop_no_InvalidArgument:
  "node_loop ext cfg point tp tb nf i j st \<noteq> Inl (InvalidArgument msg)"
proof (induction ext cfg point tp tb nf i j st rule: node_loop.induct)
  case (1 ext cfg point tp tb nf i j st)
  show ?case
  proof (cases "int j < max_nodes cfg sdiv 2")
    case False
    then show ?thesis by (subst node_loop.simps) simp
  next
    case True
    show ?thesis
    proof (cases "node_body ext cfg point tp tb nf i j st")
      case (Inl e)
      then have "e \<noteq> InvalidArgument msg"
        by (auto simp: node_body_def Let_def read_out_def write_out_def left_probability_def
            split: sum.splits option.splits if_splits)
      then show ?thesis using True Inl by (subst node_loop.simps) simp
    next
      case (Inr st')
      then show ?thesis using True "1.IH" by (subst node_loop.simps) simp
    qed
  qed
qed

lemma row_loop_no_InvalidArgument:
  "row_loop ext cfg inp tp tb nd nf i st \<noteq> Inl (InvalidArgument msg)"
proof (induction ext cfg inp tp tb nd nf i st rule: row_loop.induct)
  case (1 ext cfg inp tp tb nd nf i st)
  show ?case
  proof (cases "int i < nd")
    case False
    then show ?thesis by (subst row_loop.simps) simp
  next
    case True
    show ?thesis
    proof (cases "Slice inp i (i + 1)")
      case None
      then show ?thesis using True by (subst row_loop.simps) simp
    next
      case (Some point)
      show ?thesis
      proof (cases "write_out (out_probs st) i 0 (1::'a)")
        case (Inl e)
        then have "e \<noteq> InvalidArgument msg"
          by (auto simp: write_out_def split: if_splits)
        then show ?thesis using True Some Inl by (subst row_loop.simps) simp
      next
        case (Inr ps)
        show ?thesis
        proof (cases "node_loop ext cfg point tp tb nf i 0 (st\<lparr>out_probs := ps\<rparr>)")
          case (Inl e)
          then have "e \<noteq> InvalidArgument msg"
            using node_loop_no_InvalidArgument by metis
          then show ?thesis using True Some Inr Inl by (subst row_loop.simps) simp
        next
          case st': (Inr st')
          then show ?thesis
            using True Some Inr "1.IH" by (subst row_loop.simps) simp
        qed
      qed
    qed
  qed
qed

subsection \<open>A valid call returns the table of path products\<close>

lemma valid_nodes:
  assumes "valid_call ext cfg inp tp tb"
  shows "nat (max_nodes cfg) = 2 * internal_nodes cfg + 1"
proof -
  have pos: "0 < max_nodes cfg" and odd: "odd (max_nodes cfg)"
    using assms by (simp_all add: valid_call_def)
  have "max_nodes cfg = 2 * (max_nodes cfg div 2) + 1" using odd by presburger
  then show ?thesis
    using pos by (simp add: internal_nodes_def sdiv_two_nonneg)
qed

lemma Compute_valid:
  assumes v: "valid_call ext cfg inp tp tb"
  shows "\<exists>pt lpf.
           (\<forall>i<shape inp ! 0. Slice inp i (i + 1) = Some (pt i) \<and>
              (\<forall>j<internal_nodes cfg.
                 left_probability ext cfg (pt i) (row_feature_set ext cfg (num_features_of inp) i)
                   tp tb (num_features_of inp) j = Inr (lpf i j))) \<and>
           Compute ext cfg inp tp tb =
             Inr \<lparr>output_shape = [shape inp ! 0, nat (max_nodes cfg)],
                  probabilities =
                    map (\<lambda>i. map (\<lambda>k. Some (path_product (lpf i) k)) [0..<nat (max_nodes cfg)])
                      [0..<shape inp ! 0],
                  feature_set_calls =
                    concat (map (\<lambda>i. replicate (internal_nodes cfg)
                                        (selector_args cfg (num_features_of inp) i))
                              [0..<shape inp ! 0])\<rparr>"
proof -
  define N where "N = shape inp ! 0"
  define H where "H = internal_nodes cfg"
  define M where "M = nat (max_nodes cfg)"
  define nf where "nf = num_features_of inp"
  have rank: "dims inp = 2" and small: "N < 2 ^ 31" and bounds: "CheckTensorBounds ext inp"
    and pos: "0 < max_nodes cfg" and odd: "odd (max_nodes cfg)"
    and alloc: "allocate_output ext [N, M]"
    and tb1: "dims tb = 1" and tbH: "H \<le> length (flat tb)"
    and tp1: "1 \<le> dims tp" and tpH: "H \<le> shape tp ! 0"
    using v by (simp_all add: valid_call_def N_def H_def M_def)
  have Hint: "max_nodes cfg sdiv 2 = int H"
    using pos by (simp add: H_def internal_nodes_def sdiv_two_nonneg)
  have MH: "M = 2 * H + 1"
  proof -
    have "max_nodes cfg = 2 * (max_nodes cfg div 2) + 1" using odd by presburger
    then have "max_nodes cfg = 2 * int H + 1"
      using Hint pos by (simp add: sdiv_two_nonneg)
    then show ?thesis by (simp add: M_def)
  qed
  have "\<forall>i. \<exists>p. i < N \<longrightarrow> Slice inp i (i + 1) = Some p"
    using Slice_row [of inp] rank by (auto simp: N_def)
  then obtain pt where pt: "\<forall>i<N. Slice inp i (i + 1) = Some (pt i)"
    by metis
  have "\<forall>i. \<forall>j. \<exists>l. j < H \<longrightarrow>
          left_probability ext cfg (pt i) (row_feature_set ext cfg nf i) tp tb nf j = Inr l"
    using left_probability_Inr [OF tp1] tbH tpH
    by (metis less_le_trans)
  then obtain lpf where lpf: "\<forall>i<N. \<forall>j<H.
          left_probability ext cfg (pt i) (row_feature_set ext cfg nf i) tp tb nf j = Inr (lpf i j)"
    by metis
  define st0 :: "'a loop_state" where
    "st0 = \<lparr>out_probs = replicate N (replicate M None), feature_set = [], selector_calls = []\<rparr>"
  from row_loop_run [where i = 0 and st = st0 and num_data = "int N", OF Hint MH _ pt lpf]
  obtain st' where st': "row_loop ext cfg inp tp tb (int N) nf 0 st0 = Inr st'"
    "out_probs st' = map (\<lambda>i'. map (\<lambda>k. Some (path_product (lpf i') k)) [0..<M]) [0..<N]"
    "selector_calls st' =
       concat (map (\<lambda>i'. replicate H (selector_args cfg nf i')) [0..<N])"
    by (auto simp: st0_def)
  have d0: "dim_size inp 0 = Some N" and d1: "dim_size inp 1 = Some (shape inp ! 1)"
    using rank by (simp_all add: dim_size_def N_def)
  have nd: "int32_cast (int N) = int N"
    using small by (intro int32_cast_id) simp_all
  have run: "Compute ext cfg inp tp tb =
      Inr \<lparr>output_shape = [N, M], probabilities = out_probs st',
           feature_set_calls = selector_calls st'\<rparr>"
    using rank bounds pos alloc tb1 d1
      st'(1) [unfolded nf_def num_features_of_def st0_def M_def]
    by (simp add: Compute_def d0 nd Let_def M_def)
  have "(\<forall>i<N. Slice inp i (i + 1) = Some (pt i) \<and>
              (\<forall>j<H. left_probability ext cfg (pt i) (row_feature_set ext cfg nf i)
                        tp tb nf j = Inr (lpf i j))) \<and>
        Compute ext cfg inp tp tb =
          Inr \<lparr>output_shape = [N, M],
               probabilities = map (\<lambda>i. map (\<lambda>k. Some (path_product (lpf i) k)) [0..<M]) [0..<N],
               feature_set_calls =
                 concat (map (\<lambda>i. replicate H (selector_args cfg nf i)) [0..<N])\<rparr>"
    using pt lpf run st'(2,3) by simp
  then show ?thesis
    unfolding N_def H_def M_def nf_def by (intro exI)
qed

lemma Compute_valid_cells:
  assumes v: "valid_call ext cfg inp tp tb"
  obtains r pt lpf where
    "Compute ext cfg inp tp tb = Inr r"
    "output_shape r = [shape inp ! 0, nat (max_nodes cfg)]"
    "length (probabilities r) = shape inp ! 0"
    "\<forall>i<shape inp ! 0. length (probabilities r ! i) = nat (max_nodes cfg)"
    "\<forall>i<shape inp ! 0. Slice inp i (i + 1) = Some (pt i)"
    "\<forall>i<shape inp ! 0. \<forall>j<internal_nodes cfg.
        left_probability ext cfg (pt i) (row_feature_set ext cfg (num_features_of inp) i)
          tp tb (num_features_of inp) j = Inr (lpf i j)"
    "\<forall>i<shape inp ! 0. \<forall>k<nat (max_nodes cfg).
        probabilities r ! i ! k = Some (path_product (lpf i) k)"
    "feature_set_calls r =
       concat (map (\<lambda>i. replicate (internal_nodes cfg)
                           (selector_args cfg (num_features_of inp) i))
                 [0..<shape inp ! 0])"
proof -
  from Compute_valid [OF v] obtain pt lpf where
    ext: "\<forall>i<shape inp ! 0. Slice inp i (i + 1) = Some (pt i) \<and>
              (\<forall>j<internal_nodes cfg.
                 left_probability ext cfg (pt i) (row_feature_set ext cfg (num_features_of inp) i)
                   tp tb (num_features_of inp) j = Inr (lpf i j))"
    and run: "Compute ext cfg inp tp tb =
             Inr \<lparr>output_shape = [shape inp ! 0, nat (max_nodes cfg)],
                  probabilities =
                    map (\<lambda>i. map (\<lambda>k. Some (path_product (lpf i) k)) [0..<nat (max_nodes cfg)])
                      [0..<shape inp ! 0],
                  feature_set_calls =
                    concat (map (\<lambda>i. replicate (internal_nodes cfg)
                                        (selector_args cfg (num_features_of inp) i))
                              [0..<shape inp ! 0])\<rparr>"
    by blast
  show thesis
    by (rule that [OF run, of pt lpf]) (use ext in simp_all)
qed

subsection \<open>The example calls\<close>

lemmas example_defs =
  example_externals_def example_config_def example_input_def example_parameters_def
  example_biases_def

lemma example_valid:
  "valid_call example_externals example_config example_input example_parameters example_biases"
  by (simp add: valid_call_def example_defs dims_def internal_nodes_def)

lemma example_wider_valid:
  "valid_call example_externals example_config example_wider_input example_parameters
     example_biases"
  by (simp add: valid_call_def example_defs example_wider_input_def dims_def internal_nodes_def)

lemmas f32_defs = f32_externals_def f32_input_def f32_parameters_def f32_biases_def

lemma f32_valid:
  "valid_call f32_externals example_config f32_input f32_parameters f32_biases"
  by (simp add: valid_call_def f32_defs example_config_def dims_def internal_nodes_def)

text \<open>
  The scenario of the spec: three nodes, one row \<open>[1.0, 0.0]\<close>, weights
  \<open>[0.5, -0.5]\<close>, bias \<open>0.0\<close> and a left probability of \<open>0.6\<close> give the row
  \<open>[1.0, 0.6, 0.4]\<close> (here in exact arithmetic).
\<close>

lemma spec_scenario:
  "Compute
     \<lparr>CheckTensorBounds = (\<lambda>t. True), GetFeatureSet = (\<lambda>layer index seed n k. [0, 1]),
      LeftProbabilityK = (\<lambda>point fs w b n k. 3 / 5), allocate_output = (\<lambda>sh. True)\<rparr>
     \<lparr>layer_num = 0, max_nodes = 3, num_features_per_node = 2, random_seed = 0\<rparr>
     \<lparr>shape = [1, 2], flat = [1, 0]\<rparr>
     \<lparr>shape = [1, 2], flat = [1 / 2, - 1 / 2]\<rparr>
     \<lparr>shape = [1], flat = [0]\<rparr> =
     Inr \<lparr>output_shape = [1, 3],
          probabilities = [[Some 1, Some (3 / 5), Some (2 / 5 :: rat)]],
          feature_set_calls = [(0, 0, 0, 2, 2)]\<rparr>"
  by (simp add: Compute_def dim_size_def dims_def int32_cast_def Let_def
      row_loop.simps node_loop.simps node_body_def Slice_def write_out_def read_out_def
      left_probability_def element1_def eval_nat_numeral)

section \<open>The claims\<close>

text \<open>
  C1. On a valid call, for every row \<open>i\<close> and every internal node \<open>j\<close> below
  \<open>max_nodes / 2\<close>, the output holds \<open>output[i, 2j+1] = output[i, j] * left_prob\<close> and
  \<open>output[i, 2j+2] = output[i, j] * (1 - left_prob)\<close>, where \<open>left_prob\<close> is what
  \<open>LeftProbabilityK\<close> returns for the slice \<open>[i, i+1)\<close> of the input, the feature set
  of row \<open>i\<close>, the slice \<open>[j, j+1)\<close> of the parameters, element \<open>j\<close> of the biases and
  the two counts; and every entry of the row is the product of the split probabilities
  along the path from the root. The example is row 1 of the seven-node call, whose three
  internal nodes split with \<open>4/5\<close>, \<open>9/10\<close> and \<open>1/4\<close>.
\<close>

theorem routing_recurrence:
  assumes v: "valid_call ext cfg inp tp tb" and i: "i < shape inp ! 0"
  shows "\<exists>r point lpf.
           Compute ext cfg inp tp tb = Inr r \<and> Slice inp i (i + 1) = Some point \<and>
           (\<forall>j<internal_nodes cfg.
              left_probability ext cfg point (row_feature_set ext cfg (num_features_of inp) i)
                tp tb (num_features_of inp) j = Inr (lpf j) \<and>
              (\<exists>w b. Slice tp j (j + 1) = Some w \<and> element1 tb j = Some b \<and>
                   lpf j =
                     LeftProbabilityK ext point
                       (GetFeatureSet ext (layer_num cfg) (int i) (random_seed cfg)
                          (num_features_of inp) (num_features_per_node cfg))
                       w b (num_features_of inp) (num_features_per_node cfg)) \<and>
              (\<exists>p. probabilities r ! i ! j = Some p \<and>
                   probabilities r ! i ! (2 * j + 1) = Some (p * lpf j) \<and>
                   probabilities r ! i ! (2 * j + 2) = Some (p * (1 - lpf j)))) \<and>
           (\<forall>k<nat (max_nodes cfg). probabilities r ! i ! k = Some (path_product lpf k))"
proof -
  from Compute_valid [OF v] obtain pt lpf where
    ext: "\<forall>i<shape inp ! 0. Slice inp i (i + 1) = Some (pt i) \<and>
              (\<forall>j<internal_nodes cfg.
                 left_probability ext cfg (pt i) (row_feature_set ext cfg (num_features_of inp) i)
                   tp tb (num_features_of inp) j = Inr (lpf i j))"
    and run: "Compute ext cfg inp tp tb =
             Inr \<lparr>output_shape = [shape inp ! 0, nat (max_nodes cfg)],
                  probabilities =
                    map (\<lambda>i. map (\<lambda>k. Some (path_product (lpf i) k)) [0..<nat (max_nodes cfg)])
                      [0..<shape inp ! 0],
                  feature_set_calls =
                    concat (map (\<lambda>i. replicate (internal_nodes cfg)
                                        (selector_args cfg (num_features_of inp) i))
                              [0..<shape inp ! 0])\<rparr>"
    by blast
  define r where "r = \<lparr>output_shape = [shape inp ! 0, nat (max_nodes cfg)],
                  probabilities =
                    map (\<lambda>i. map (\<lambda>k. Some (path_product (lpf i) k)) [0..<nat (max_nodes cfg)])
                      [0..<shape inp ! 0],
                  feature_set_calls =
                    concat (map (\<lambda>i. replicate (internal_nodes cfg)
                                        (selector_args cfg (num_features_of inp) i))
                              [0..<shape inp ! 0])\<rparr>"
  have M: "nat (max_nodes cfg) = 2 * internal_nodes cfg + 1" by (rule valid_nodes [OF v])
  have cell: "\<forall>k<nat (max_nodes cfg). probabilities r ! i ! k = Some (path_product (lpf i) k)"
    using i by (simp add: r_def)
  have rec: "\<forall>j<internal_nodes cfg.
              left_probability ext cfg (pt i) (row_feature_set ext cfg (num_features_of inp) i)
                tp tb (num_features_of inp) j = Inr (lpf i j) \<and>
              (\<exists>w b. Slice tp j (j + 1) = Some w \<and> element1 tb j = Some b \<and>
                   lpf i j =
                     LeftProbabilityK ext (pt i)
                       (GetFeatureSet ext (layer_num cfg) (int i) (random_seed cfg)
                          (num_features_of inp) (num_features_per_node cfg))
                       w b (num_features_of inp) (num_features_per_node cfg)) \<and>
              (\<exists>p. probabilities r ! i ! j = Some p \<and>
                   probabilities r ! i ! (2 * j + 1) = Some (p * lpf i j) \<and>
                   probabilities r ! i ! (2 * j + 2) = Some (p * (1 - lpf i j)))"
  proof (intro allI impI conjI)
    fix j assume j: "j < internal_nodes cfg"
    show lp: "left_probability ext cfg (pt i) (row_feature_set ext cfg (num_features_of inp) i)
                tp tb (num_features_of inp) j = Inr (lpf i j)"
      using ext i j by simp
    then obtain w b where "Slice tp j (j + 1) = Some w" and "element1 tb j = Some b"
      and "LeftProbabilityK ext (pt i) (row_feature_set ext cfg (num_features_of inp) i) w b
             (num_features_of inp) (num_features_per_node cfg) = lpf i j"
      by (auto simp: left_probability_def split: option.splits)
    then show "\<exists>w b. Slice tp j (j + 1) = Some w \<and> element1 tb j = Some b \<and>
                   lpf i j =
                     LeftProbabilityK ext (pt i)
                       (GetFeatureSet ext (layer_num cfg) (int i) (random_seed cfg)
                          (num_features_of inp) (num_features_per_node cfg))
                       w b (num_features_of inp) (num_features_per_node cfg)"
      by (auto simp: row_feature_set_def)
    have "probabilities r ! i ! j = Some (path_product (lpf i) j)"
      and "probabilities r ! i ! (2 * j + 1) = Some (path_product (lpf i) (2 * j + 1))"
      and "probabilities r ! i ! (2 * j + 2) = Some (path_product (lpf i) (2 * j + 2))"
      using cell j M by simp_all
    then show "\<exists>p. probabilities r ! i ! j = Some p \<and>
                   probabilities r ! i ! (2 * j + 1) = Some (p * lpf i j) \<and>
                   probabilities r ! i ! (2 * j + 2) = Some (p * (1 - lpf i j))"
      by (simp add: path_product_Suc)
  qed
  have "Compute ext cfg inp tp tb = Inr r \<and> Slice inp i (i + 1) = Some (pt i)"
    using run ext i by (simp add: r_def)
  then show ?thesis
    using rec cell by blast
qed

theorem routing_recurrence_witness:
  "valid_call example_externals example_config example_input example_parameters example_biases \<and>
   (\<exists>r. Compute example_externals example_config example_input example_parameters
           example_biases = Inr r \<and>
        probabilities r ! 1 ! 0 = Some 1 \<and>
        probabilities r ! 1 ! 1 = Some (4 / 5) \<and>
        probabilities r ! 1 ! 2 = Some (1 / 5) \<and>
        probabilities r ! 1 ! 3 = Some (18 / 25) \<and>
        probabilities r ! 1 ! 4 = Some (2 / 25) \<and>
        probabilities r ! 1 ! 5 = Some (1 / 20) \<and>
        probabilities r ! 1 ! 6 = Some (3 / 20))"
proof -
  have i: "1 < shape example_input ! 0" by (simp add: example_input_def)
  from routing_recurrence [OF example_valid i]
  obtain r point lpf where
    run: "Compute example_externals example_config example_input example_parameters
            example_biases = Inr r"
    and pt: "Slice example_input 1 (1 + 1) = Some point"
    and rec: "\<forall>j<internal_nodes example_config.
              left_probability example_externals example_config point
                (row_feature_set example_externals example_config
                   (num_features_of example_input) 1)
                example_parameters example_biases (num_features_of example_input) j =
                Inr (lpf j) \<and>
              (\<exists>w b. Slice example_parameters j (j + 1) = Some w \<and>
                   element1 example_biases j = Some b \<and>
                   lpf j =
                     LeftProbabilityK example_externals point
                       (GetFeatureSet example_externals (layer_num example_config) (int 1)
                          (random_seed example_config) (num_features_of example_input)
                          (num_features_per_node example_config))
                       w b (num_features_of example_input)
                       (num_features_per_node example_config)) \<and>
              (\<exists>p. probabilities r ! 1 ! j = Some p \<and>
                   probabilities r ! 1 ! (2 * j + 1) = Some (p * lpf j) \<and>
                   probabilities r ! 1 ! (2 * j + 2) = Some (p * (1 - lpf j)))"
    and cells: "\<forall>k<nat (max_nodes example_config).
                  probabilities r ! 1 ! k = Some (path_product lpf k)"
    by blast
  have point: "point = \<lparr>shape = [1, 2], flat = [3, 4]\<rparr>"
    using pt by (simp add: Slice_def example_input_def)
  have nodes: "internal_nodes example_config = 3"
    by (simp add: internal_nodes_def example_config_def)
  have used: "\<exists>w b. Slice example_parameters j (j + 1) = Some w \<and>
                   element1 example_biases j = Some b \<and>
                   lpf j = max 0 (min 1 (b + hd (flat w) * 4 / 10))" if "j < 3" for j
  proof -
    have "\<exists>w b. Slice example_parameters j (j + 1) = Some w \<and>
                   element1 example_biases j = Some b \<and>
                   lpf j =
                     LeftProbabilityK example_externals point
                       (GetFeatureSet example_externals (layer_num example_config) (int 1)
                          (random_seed example_config) (num_features_of example_input)
                          (num_features_per_node example_config))
                       w b (num_features_of example_input)
                       (num_features_per_node example_config)"
      using rec that nodes by simp
    then show ?thesis
      by (simp add: point example_externals_def example_config_def example_input_def
          num_features_of_def int32_cast_def)
  qed
  have l0: "lpf 0 = 4 / 5"
    using used [of 0] by (auto simp: Slice_def element1_def example_defs)
  have l1: "lpf (Suc 0) = 9 / 10"
    using used [of 1] by (auto simp: Slice_def element1_def example_defs)
  have l2: "lpf 2 = 1 / 4"
    using used [of 2] by (auto simp: Slice_def element1_def example_defs)
  have cell: "probabilities r ! 1 ! k = Some (path_product lpf k)" if "k < 7" for k
    using cells that by (simp add: example_config_def)
  have p1: "path_product lpf (Suc 0) = 4 / 5"
    using path_product_left [of lpf 0] by (simp add: path_product_root l0)
  have p2: "path_product lpf 2 = 1 / 5"
    using path_product_right [of lpf 0] by (simp add: path_product_root l0 numeral_2_eq_2)
  have p3: "path_product lpf 3 = 18 / 25"
    using path_product_left [of lpf 1] by (simp add: p1 l1)
  have p4: "path_product lpf 4 = 2 / 25"
    using path_product_right [of lpf 1] by (simp add: p1 l1)
  have p5: "path_product lpf 5 = 1 / 20"
    using path_product_left [of lpf 2] by (simp add: p2 l2)
  have p6: "path_product lpf 6 = 3 / 20"
    using path_product_right [of lpf 2] by (simp add: p2 l2)
  show ?thesis
    using example_valid run cell [of 0] cell [of 1] cell [of 2] cell [of 3] cell [of 4]
      cell [of 5] cell [of 6]
    by (simp add: path_product_root p1 p2 p3 p4 p5 p6)
qed

text \<open>
  C2. Mass conservation holds up to rounding, not exactly. On a valid call in binary32
  whose split probabilities are finite values of the unit interval, for every row and
  every internal node \<open>j\<close> the three entries are finite and the exact sum of
  \<open>prob[2j+1]\<close> and \<open>prob[2j+2]\<close> differs from \<open>prob[j]\<close> by at most \<open>3 * 2^-25\<close>: each
  of the two products and the complement \<open>1 - left_prob\<close> is rounded once.
\<close>

theorem mass_conserved_up_to_rounding:
  fixes ext :: "float32 externals"
  assumes v: "valid_call ext cfg inp tp tb"
    and lpk: "\<forall>point fs w b nf k. is_probability (LeftProbabilityK ext point fs w b nf k)"
    and i: "i < shape inp ! 0" and j: "j < internal_nodes cfg"
  shows "\<exists>r a b c.
           Compute ext cfg inp tp tb = Inr r \<and>
           probabilities r ! i ! j = Some (Finite a) \<and>
           probabilities r ! i ! (2 * j + 1) = Some (Finite b) \<and>
           probabilities r ! i ! (2 * j + 2) = Some (Finite c) \<and>
           \<bar>b + c - a\<bar> \<le> 3 / 2 ^ 25"
proof (rule Compute_valid_cells [OF v])
  fix r pt and lpf :: "nat \<Rightarrow> nat \<Rightarrow> float32"
  assume run: "Compute ext cfg inp tp tb = Inr r"
    and lps: "\<forall>i<shape inp ! 0. \<forall>j<internal_nodes cfg.
        left_probability ext cfg (pt i) (row_feature_set ext cfg (num_features_of inp) i)
          tp tb (num_features_of inp) j = Inr (lpf i j)"
    and cells: "\<forall>i<shape inp ! 0. \<forall>k<nat (max_nodes cfg).
        probabilities r ! i ! k = Some (path_product (lpf i) k)"
  have M: "nat (max_nodes cfg) = 2 * internal_nodes cfg + 1" by (rule valid_nodes [OF v])
  have lp: "is_probability (lpf i j')" if "j' < internal_nodes cfg" for j'
  proof -
    have "left_probability ext cfg (pt i) (row_feature_set ext cfg (num_features_of inp) i)
          tp tb (num_features_of inp) j' = Inr (lpf i j')"
      using lps i that by blast
    then obtain w b where "LeftProbabilityK ext (pt i)
                          (row_feature_set ext cfg (num_features_of inp) i) w b
                          (num_features_of inp) (num_features_per_node cfg) = lpf i j'"
      by (auto simp: left_probability_def split: option.splits)
    then show ?thesis
      using lpk by metis
  qed
  have "is_probability (path_product (lpf i) j)"
  proof (rule path_product_closed)
    show "is_probability 1" by (rule is_probability_one)
    show "is_probability (a * b)" if "is_probability a" "is_probability b" for a b
      using that by (rule is_probability_times)
    show "is_probability (1 - b)" if "is_probability b" for b
      using that by (rule is_probability_complement)
    show "is_probability (lpf i j')" if "2 * j' + 1 \<le> j" for j'
      using that j by (intro lp) simp
  qed
  then obtain a where a: "path_product (lpf i) j = Finite a" "0 \<le> a" "a \<le> 1"
    by (rule is_probability_cases)
  obtain l where l: "lpf i j = Finite l" "0 \<le> l" "l \<le> 1"
    using lp [OF j] by (rule is_probability_cases)
  from split_conserves_up_to_rounding [OF a(2,3) l(2,3)]
  obtain b c where bc: "Finite a * Finite l = Finite b"
    "Finite a * (1 - Finite l) = Finite c" "\<bar>b + c - a\<bar> \<le> 3 / 2 ^ 25"
    by blast
  have "probabilities r ! i ! j = Some (path_product (lpf i) j)"
    and "probabilities r ! i ! (2 * j + 1) = Some (path_product (lpf i) j * lpf i j)"
    and "probabilities r ! i ! (2 * j + 2) = Some (path_product (lpf i) j * (1 - lpf i j))"
    using cells i j M by (simp_all add: path_product_Suc)
  then have "probabilities r ! i ! j = Some (Finite a)"
    and "probabilities r ! i ! (2 * j + 1) = Some (Finite b)"
    and "probabilities r ! i ! (2 * j + 2) = Some (Finite c)"
    by (simp_all add: a l bc)
  then show ?thesis
    using run bc(3) by blast
qed

theorem mass_conserved_up_to_rounding_witness:
  "valid_call f32_externals example_config f32_input f32_parameters f32_biases \<and>
   (\<exists>r a b c.
      Compute f32_externals example_config f32_input f32_parameters f32_biases = Inr r \<and>
      probabilities r ! 0 ! 1 = Some (Finite a) \<and>
      probabilities r ! 0 ! 3 = Some (Finite b) \<and>
      probabilities r ! 0 ! 4 = Some (Finite c) \<and>
      \<bar>b + c - a\<bar> \<le> 3 / 2 ^ 25)"
proof -
  have lpk: "\<forall>point fs w b nf k.
               is_probability (LeftProbabilityK f32_externals point fs w b nf k)"
    by (simp add: f32_externals_def is_probability_def)
  have i: "0 < shape f32_input ! 0" by (simp add: f32_input_def)
  have j: "1 < internal_nodes example_config"
    by (simp add: internal_nodes_def example_config_def)
  show ?thesis
    using mass_conserved_up_to_rounding [OF f32_valid lpk i j] f32_valid by simp
qed

text \<open>
  The sum is not exact: with a left probability of \<^verbatim>\<open>0.8f\<close> at every node, the
  children of node \<open>1\<close> hold \<open>10737419 / 2^24\<close> and \<open>5368709 / 2^25\<close>. Their binary32 sum
  is \<open>13421774 / 2^24\<close> and their exact sum is \<open>26843547 / 2^25\<close>, while node \<open>1\<close> holds
  \<open>13421773 / 2^24\<close>.
\<close>

theorem exact_mass_conservation_counterexample:
  "\<exists>r. Compute f32_externals example_config f32_input f32_parameters f32_biases = Inr r \<and>
        probabilities r ! 0 ! 1 = Some (Finite (13421773 / 16777216)) \<and>
        probabilities r ! 0 ! 3 = Some (Finite (10737419 / 16777216)) \<and>
        probabilities r ! 0 ! 4 = Some (Finite (5368709 / 33554432)) \<and>
        Finite (10737419 / 16777216) + Finite (5368709 / 33554432) =
          Finite (13421774 / 16777216) \<and>
        Finite (13421774 / 16777216) \<noteq> Finite (13421773 / 16777216) \<and>
        (10737419 / 16777216 + 5368709 / 33554432 :: rat) \<noteq> 13421773 / 16777216"
proof (rule Compute_valid_cells [OF f32_valid])
  fix r pt and lpf :: "nat \<Rightarrow> nat \<Rightarrow> float32"
  assume run: "Compute f32_externals example_config f32_input f32_parameters f32_biases = Inr r"
    and lps: "\<forall>i<shape f32_input ! 0. \<forall>j<internal_nodes example_config.
        left_probability f32_externals example_config (pt i)
          (row_feature_set f32_externals example_config (num_features_of f32_input) i)
          f32_parameters f32_biases (num_features_of f32_input) j = Inr (lpf i j)"
    and cells: "\<forall>i<shape f32_input ! 0. \<forall>k<nat (max_nodes example_config).
        probabilities r ! i ! k = Some (path_product (lpf i) k)"
  have lp: "lpf 0 j = Finite (13421773 / 16777216)" if "j < 3" for j
  proof -
    have "left_probability f32_externals example_config (pt 0)
          (row_feature_set f32_externals example_config (num_features_of f32_input) 0)
          f32_parameters f32_biases (num_features_of f32_input) j = Inr (lpf 0 j)"
      using lps that by (simp add: f32_input_def internal_nodes_def example_config_def)
    then show ?thesis
      using that
      by (simp add: left_probability_def Slice_def element1_def f32_defs split: if_splits)
  qed
  have cell: "probabilities r ! 0 ! k = Some (path_product (lpf 0) k)" if "k < 7" for k
    using cells that by (simp add: f32_input_def example_config_def)
  have p1: "path_product (lpf 0) (Suc 0) = Finite (13421773 / 16777216)"
    using path_product_left [of "lpf 0" 0]
    by (simp add: path_product_root lp f32_products)
  have p3: "path_product (lpf 0) 3 = Finite (10737419 / 16777216)"
    using path_product_left [of "lpf 0" 1]
    by (simp add: p1 lp f32_products)
  have p4: "path_product (lpf 0) 4 = Finite (5368709 / 33554432)"
    using path_product_right [of "lpf 0" 1]
    by (simp add: p1 lp f32_products)
  have sum: "Finite (10737419 / 16777216) + Finite (5368709 / 33554432) =
          Finite (13421774 / 16777216)"
    by (simp add: f32_products)
  show ?thesis
    using run cell [of 1] cell [of 3] cell [of 4] sum by (simp add: p1 p3 p4)
qed

text \<open>
  C3. On a valid call, the entry of node \<open>0\<close> is exactly \<open>1\<close> in every row.
\<close>

theorem root_is_one:
  assumes "valid_call ext cfg inp tp tb" and "i < shape inp ! 0"
  shows "\<exists>r. Compute ext cfg inp tp tb = Inr r \<and> probabilities r ! i ! 0 = Some 1"
proof (rule Compute_valid_cells [OF assms(1)])
  fix r and lpf :: "nat \<Rightarrow> nat \<Rightarrow> 'a"
  assume run: "Compute ext cfg inp tp tb = Inr r"
    and cells: "\<forall>i<shape inp ! 0. \<forall>k<nat (max_nodes cfg).
        probabilities r ! i ! k = Some (path_product (lpf i) k)"
  have "0 < nat (max_nodes cfg)" using assms(1) by (simp add: valid_call_def)
  then have "probabilities r ! i ! 0 = Some (path_product (lpf i) 0)"
    using cells assms(2) by blast
  then show ?thesis using run by (simp add: path_product_root)
qed

theorem root_is_one_witness:
  "valid_call example_externals example_config example_input example_parameters example_biases \<and>
   (\<exists>r. Compute example_externals example_config example_input example_parameters
           example_biases = Inr r \<and>
        probabilities r ! 1 ! 0 = Some 1)"
  using root_is_one [OF example_valid, of 1] example_valid by (simp add: example_input_def)

text \<open>
  C4. On a valid call the selector is called with the arguments
  \<open>(layer_num, i, random_seed, num_features, num_features_per_node)\<close>, once for every
  internal node of every row \<open>i\<close> and in that order: the second argument is the row, not
  the node. The feature set so obtained for row \<open>i\<close> is the one \<open>LeftProbabilityK\<close>
  receives at every node of that row.
\<close>

theorem selector_seeded_by_row:
  assumes v: "valid_call ext cfg inp tp tb"
  shows "\<exists>r. Compute ext cfg inp tp tb = Inr r \<and>
           feature_set_calls r =
             concat (map (\<lambda>i. replicate (internal_nodes cfg)
                                 (layer_num cfg, int i, random_seed cfg, num_features_of inp,
                                  num_features_per_node cfg))
                       [0..<shape inp ! 0]) \<and>
           (\<forall>i<shape inp ! 0. \<forall>j<internal_nodes cfg.
              \<exists>point w b p.
                Slice inp i (i + 1) = Some point \<and> Slice tp j (j + 1) = Some w \<and>
                element1 tb j = Some b \<and> probabilities r ! i ! j = Some p \<and>
                probabilities r ! i ! (2 * j + 1) =
                  Some (p * LeftProbabilityK ext point
                              (GetFeatureSet ext (layer_num cfg) (int i) (random_seed cfg)
                                 (num_features_of inp) (num_features_per_node cfg))
                              w b (num_features_of inp) (num_features_per_node cfg)))"
proof (rule Compute_valid_cells [OF v])
  fix r pt and lpf :: "nat \<Rightarrow> nat \<Rightarrow> 'a"
  assume run: "Compute ext cfg inp tp tb = Inr r"
    and pts: "\<forall>i<shape inp ! 0. Slice inp i (i + 1) = Some (pt i)"
    and lps: "\<forall>i<shape inp ! 0. \<forall>j<internal_nodes cfg.
        left_probability ext cfg (pt i) (row_feature_set ext cfg (num_features_of inp) i)
          tp tb (num_features_of inp) j = Inr (lpf i j)"
    and cells: "\<forall>i<shape inp ! 0. \<forall>k<nat (max_nodes cfg).
        probabilities r ! i ! k = Some (path_product (lpf i) k)"
    and calls: "feature_set_calls r =
       concat (map (\<lambda>i. replicate (internal_nodes cfg)
                           (selector_args cfg (num_features_of inp) i))
                 [0..<shape inp ! 0])"
  have M: "nat (max_nodes cfg) = 2 * internal_nodes cfg + 1" by (rule valid_nodes [OF v])
  have used: "\<exists>point w b p.
                Slice inp i (i + 1) = Some point \<and> Slice tp j (j + 1) = Some w \<and>
                element1 tb j = Some b \<and> probabilities r ! i ! j = Some p \<and>
                probabilities r ! i ! (2 * j + 1) =
                  Some (p * LeftProbabilityK ext point
                              (GetFeatureSet ext (layer_num cfg) (int i) (random_seed cfg)
                                 (num_features_of inp) (num_features_per_node cfg))
                              w b (num_features_of inp) (num_features_per_node cfg))"
    if i: "i < shape inp ! 0" and j: "j < internal_nodes cfg" for i j
  proof -
    have lp: "left_probability ext cfg (pt i) (row_feature_set ext cfg (num_features_of inp) i)
          tp tb (num_features_of inp) j = Inr (lpf i j)"
      using lps i j by blast
    then obtain w b where w: "Slice tp j (j + 1) = Some w" and b: "element1 tb j = Some b"
      and l: "lpf i j = LeftProbabilityK ext (pt i)
                          (row_feature_set ext cfg (num_features_of inp) i) w b
                          (num_features_of inp) (num_features_per_node cfg)"
      by (auto simp: left_probability_def split: option.splits)
    have "probabilities r ! i ! j = Some (path_product (lpf i) j)"
      and "probabilities r ! i ! (2 * j + 1) = Some (path_product (lpf i) j * lpf i j)"
      using cells i j M by (simp_all add: path_product_Suc)
    then show ?thesis
      using pts i w b l by (simp add: row_feature_set_def)
  qed
  show ?thesis
    using run calls used by (simp add: selector_args_def)
qed

theorem selector_seeded_by_row_witness:
  "valid_call example_externals example_config example_input example_parameters example_biases \<and>
   (\<exists>r. Compute example_externals example_config example_input example_parameters
           example_biases = Inr r \<and>
        feature_set_calls r =
          [(0, 0, 42, 2, 2), (0, 0, 42, 2, 2), (0, 0, 42, 2, 2),
           (0, 1, 42, 2, 2), (0, 1, 42, 2, 2), (0, 1, 42, 2, 2)])"
proof -
  have up: "[0..<2] = [0, 1]" by (simp add: upt_rec)
  show ?thesis
    using selector_seeded_by_row [OF example_valid] example_valid
    by (auto simp: example_input_def example_config_def internal_nodes_def num_features_of_def
        int32_cast_def up eval_nat_numeral)
qed

text \<open>
  C5. When \<open>max_nodes\<close> is the capacity of a complete binary tree (positive and odd),
  the indices \<open>2j+1\<close> and \<open>2j+2\<close> written for \<open>j\<close> below \<open>max_nodes / 2\<close> are
  below \<open>max_nodes\<close>, no access leaves the buffer (the call returns an output), and every
  one of the \<open>max_nodes\<close> columns of every row has been written.
\<close>

theorem writes_cover_output:
  assumes v: "valid_call ext cfg inp tp tb"
  shows "\<exists>r. Compute ext cfg inp tp tb = Inr r \<and>
           output_shape r = [shape inp ! 0, nat (max_nodes cfg)] \<and>
           length (probabilities r) = shape inp ! 0 \<and>
           (\<forall>i<shape inp ! 0.
              length (probabilities r ! i) = nat (max_nodes cfg) \<and>
              (\<forall>k<nat (max_nodes cfg). probabilities r ! i ! k \<noteq> None)) \<and>
           (\<forall>j. int j < max_nodes cfg sdiv 2 \<longrightarrow>
              2 * int j + 1 < max_nodes cfg \<and> 2 * int j + 2 < max_nodes cfg)"
proof (rule Compute_valid_cells [OF v])
  fix r and lpf :: "nat \<Rightarrow> nat \<Rightarrow> 'a"
  assume run: "Compute ext cfg inp tp tb = Inr r"
    and sh: "output_shape r = [shape inp ! 0, nat (max_nodes cfg)]"
    and len: "length (probabilities r) = shape inp ! 0"
    and lens: "\<forall>i<shape inp ! 0. length (probabilities r ! i) = nat (max_nodes cfg)"
    and cells: "\<forall>i<shape inp ! 0. \<forall>k<nat (max_nodes cfg).
        probabilities r ! i ! k = Some (path_product (lpf i) k)"
  have pos: "0 < max_nodes cfg" and odd: "odd (max_nodes cfg)"
    using v by (simp_all add: valid_call_def)
  have idx: "2 * int j + 1 < max_nodes cfg \<and> 2 * int j + 2 < max_nodes cfg"
    if "int j < max_nodes cfg sdiv 2" for j
  proof -
    have "max_nodes cfg = 2 * (max_nodes cfg div 2) + 1" using odd by presburger
    moreover have "int j < max_nodes cfg div 2"
      using that pos by (simp add: sdiv_two_nonneg)
    ultimately show ?thesis by linarith
  qed
  show ?thesis
    using run sh len lens cells idx by simp
qed

theorem writes_cover_output_witness:
  "valid_call example_externals example_config example_input example_parameters example_biases \<and>
   (\<exists>r. Compute example_externals example_config example_input example_parameters
           example_biases = Inr r \<and>
        output_shape r = [2, 7] \<and> length (probabilities r) = 2 \<and>
        length (probabilities r ! 1) = 7 \<and> probabilities r ! 1 ! 6 \<noteq> None)"
  using writes_cover_output [OF example_valid] example_valid
  by (auto simp: example_input_def example_config_def)

text \<open>
  C6. On a valid call, when \<open>LeftProbabilityK\<close> returns values of the unit interval,
  every entry of the output lies in the unit interval. The arithmetic is only required
  to keep products and complements of values of the unit interval inside it, which
  rounded binary32 arithmetic does as well as exact arithmetic: the example is a call in
  binary32.
\<close>

theorem probabilities_in_unit_interval:
  fixes ext :: "'a::{zero,one,ord,times,minus} externals"
  assumes v: "valid_call ext cfg inp tp tb"
    and one: "unit_interval (1::'a)"
    and mul: "\<forall>a b::'a. unit_interval a \<and> unit_interval b \<longrightarrow> unit_interval (a * b)"
    and sub: "\<forall>b::'a. unit_interval b \<longrightarrow> unit_interval (1 - b)"
    and lpk: "\<forall>point fs w b nf k. unit_interval (LeftProbabilityK ext point fs w b nf k)"
  shows "\<exists>r. Compute ext cfg inp tp tb = Inr r \<and>
           (\<forall>i<shape inp ! 0. \<forall>k<nat (max_nodes cfg).
              \<exists>x. probabilities r ! i ! k = Some x \<and> 0 \<le> x \<and> x \<le> 1)"
proof (rule Compute_valid_cells [OF v])
  fix r pt and lpf :: "nat \<Rightarrow> nat \<Rightarrow> 'a"
  assume run: "Compute ext cfg inp tp tb = Inr r"
    and lps: "\<forall>i<shape inp ! 0. \<forall>j<internal_nodes cfg.
        left_probability ext cfg (pt i) (row_feature_set ext cfg (num_features_of inp) i)
          tp tb (num_features_of inp) j = Inr (lpf i j)"
    and cells: "\<forall>i<shape inp ! 0. \<forall>k<nat (max_nodes cfg).
        probabilities r ! i ! k = Some (path_product (lpf i) k)"
  have M: "nat (max_nodes cfg) = 2 * internal_nodes cfg + 1" by (rule valid_nodes [OF v])
  have l: "unit_interval (lpf i j)" if "i < shape inp ! 0" and "j < internal_nodes cfg" for i j
  proof -
    have "left_probability ext cfg (pt i) (row_feature_set ext cfg (num_features_of inp) i)
          tp tb (num_features_of inp) j = Inr (lpf i j)"
      using lps that by blast
    then obtain w b where "LeftProbabilityK ext (pt i)
                          (row_feature_set ext cfg (num_features_of inp) i) w b
                          (num_features_of inp) (num_features_per_node cfg) = lpf i j"
      by (auto simp: left_probability_def split: option.splits)
    then show ?thesis
      using lpk by metis
  qed
  have "unit_interval (path_product (lpf i) k)"
    if i: "i < shape inp ! 0" and k: "k < nat (max_nodes cfg)" for i k
  proof (rule path_product_closed)
    show "unit_interval (1::'a)" by (rule one)
    show "unit_interval (a * b)" if "unit_interval a" "unit_interval b" for a b :: 'a
      using mul that by blast
    show "unit_interval (1 - b)" if "unit_interval b" for b :: 'a
      using sub that by blast
    show "unit_interval (lpf i j)" if "2 * j + 1 \<le> k" for j
      using l [OF i] that k M by simp
  qed
  then show ?thesis
    using run cells by (simp add: unit_interval_def)
qed

theorem probabilities_in_unit_interval_witness:
  "valid_call f32_externals example_config f32_input f32_parameters f32_biases \<and>
   (\<exists>r x. Compute f32_externals example_config f32_input f32_parameters f32_biases = Inr r \<and>
        probabilities r ! 0 ! 6 = Some x \<and> 0 \<le> x \<and> x \<le> 1)"
proof -
  have one: "unit_interval (1::float32)"
    by (simp add: unit_interval_float32 is_probability_one)
  have mul: "\<forall>a b::float32. unit_interval a \<and> unit_interval b \<longrightarrow> unit_interval (a * b)"
    by (simp add: unit_interval_float32 is_probability_times)
  have sub: "\<forall>b::float32. unit_interval b \<longrightarrow> unit_interval (1 - b)"
    by (simp add: unit_interval_float32 is_probability_complement)
  have lpk: "\<forall>point fs w b nf k.
               unit_interval (LeftProbabilityK f32_externals point fs w b nf k)"
    by (simp add: unit_interval_float32 is_probability_def f32_externals_def)
  from probabilities_in_unit_interval [OF f32_valid one mul sub lpk]
  obtain r where run: "Compute f32_externals example_config f32_input f32_parameters
                         f32_biases = Inr r"
    and rng: "\<forall>i<shape f32_input ! 0. \<forall>k<nat (max_nodes example_config).
              \<exists>x. probabilities r ! i ! k = Some x \<and> 0 \<le> x \<and> x \<le> 1"
    by blast
  have "\<exists>x. probabilities r ! 0 ! 6 = Some x \<and> 0 \<le> x \<and> x \<le> 1"
    using rng by (simp add: f32_input_def example_config_def)
  then show ?thesis
    using f32_valid run by blast
qed

text \<open>
  C7. When the first dimension of the input is positive and the input is not
  two-dimensional, the call ends with the status \<open>InvalidArgument\<close> ("input_data should
  be two-dimensional") and without an output, whatever the collaborators would do: the
  check stands before the bounds check and the allocation.
\<close>

theorem rank_check_rejects:
  assumes "dim_size inp 0 = Some d0" and "0 < d0" and "dims inp \<noteq> 2"
  shows "Compute ext cfg inp tp tb = Inl (InvalidArgument ''input_data should be two-dimensional'')"
  using assms by (simp add: Compute_def)

theorem rank_check_rejects_witness:
  "dim_size example_cube_input 0 = Some 3 \<and> dims example_cube_input = 3 \<and>
   Compute example_externals example_config example_cube_input example_parameters
     example_biases = Inl (InvalidArgument ''input_data should be two-dimensional'')"
proof -
  have d: "dim_size example_cube_input 0 = Some 3" and r: "dims example_cube_input = 3"
    by (simp_all add: dim_size_def dims_def example_cube_input_def)
  have ne: "dims example_cube_input \<noteq> 2" using r by simp
  show ?thesis
    using rank_check_rejects [OF d _ ne, of example_externals example_config example_parameters
        example_biases] d r
    by simp
qed

text \<open>
  C8. An empty batch is not an error: when the first dimension of the input is \<open>0\<close>,
  on a call that is otherwise well formed (the input has a second dimension and passes
  the bounds check, \<open>max_nodes\<close> is not negative, the output can be allocated, the
  biases are a vector), the kernel returns an output of shape \<open>0 \<times> max_nodes\<close> with no
  row.
\<close>

theorem empty_batch:
  assumes "dim_size inp 0 = Some 0" and "2 \<le> dims inp"
    and "CheckTensorBounds ext inp" and "0 \<le> max_nodes cfg"
    and "allocate_output ext [0, nat (max_nodes cfg)]" and "dims tb = 1"
  shows "Compute ext cfg inp tp tb =
           Inr \<lparr>output_shape = [0, nat (max_nodes cfg)], probabilities = [],
                feature_set_calls = []\<rparr>"
proof -
  obtain d1 where d1: "dim_size inp 1 = Some d1"
    using assms(2) by (auto simp: dim_size_def)
  have z: "int32_cast 0 = 0" by (simp add: int32_cast_def)
  show ?thesis
    using assms d1 by (simp add: Compute_def z Let_def row_loop.simps)
qed

theorem empty_batch_witness:
  "dim_size example_empty_input 0 = Some 0 \<and>
   Compute example_externals example_config example_empty_input example_parameters
     example_biases =
     Inr \<lparr>output_shape = [0, 7], probabilities = [], feature_set_calls = []\<rparr>"
proof -
  have d: "dim_size example_empty_input 0 = Some 0" and r: "2 \<le> dims example_empty_input"
    by (simp_all add: dim_size_def dims_def example_empty_input_def)
  have c: "CheckTensorBounds example_externals example_empty_input"
    by (simp add: example_externals_def example_empty_input_def)
  have m: "0 \<le> max_nodes example_config" by (simp add: example_config_def)
  have a: "allocate_output example_externals [0, nat (max_nodes example_config)]"
    by (simp add: example_externals_def)
  have b: "dims example_biases = 1" by (simp add: dims_def example_biases_def)
  show ?thesis
    using empty_batch [OF d r c m a b, of example_parameters] d
    by (simp add: example_config_def)
qed

text \<open>
  C9. Two valid calls with the same parameters, biases, configuration and
  collaborators, whose inputs agree on row \<open>i\<close>, return the same row \<open>i\<close>, whatever
  the other rows hold and however many there are.
\<close>

theorem row_independence:
  assumes v1: "valid_call ext cfg inp1 tp tb" and v2: "valid_call ext cfg inp2 tp tb"
    and i1: "i < shape inp1 ! 0" and i2: "i < shape inp2 ! 0"
    and same: "Slice inp1 i (i + 1) = Slice inp2 i (i + 1)"
  shows "\<exists>r1 r2. Compute ext cfg inp1 tp tb = Inr r1 \<and> Compute ext cfg inp2 tp tb = Inr r2 \<and>
           probabilities r1 ! i = probabilities r2 ! i"
proof (rule Compute_valid_cells [OF v1], rule Compute_valid_cells [OF v2])
  fix r1 r2 pt1 pt2 and lpf1 lpf2 :: "nat \<Rightarrow> nat \<Rightarrow> 'a"
  assume run1: "Compute ext cfg inp1 tp tb = Inr r1"
    and lens1: "\<forall>i<shape inp1 ! 0. length (probabilities r1 ! i) = nat (max_nodes cfg)"
    and pts1: "\<forall>i<shape inp1 ! 0. Slice inp1 i (i + 1) = Some (pt1 i)"
    and lps1: "\<forall>i<shape inp1 ! 0. \<forall>j<internal_nodes cfg.
        left_probability ext cfg (pt1 i) (row_feature_set ext cfg (num_features_of inp1) i)
          tp tb (num_features_of inp1) j = Inr (lpf1 i j)"
    and cells1: "\<forall>i<shape inp1 ! 0. \<forall>k<nat (max_nodes cfg).
        probabilities r1 ! i ! k = Some (path_product (lpf1 i) k)"
  assume run2: "Compute ext cfg inp2 tp tb = Inr r2"
    and lens2: "\<forall>i<shape inp2 ! 0. length (probabilities r2 ! i) = nat (max_nodes cfg)"
    and pts2: "\<forall>i<shape inp2 ! 0. Slice inp2 i (i + 1) = Some (pt2 i)"
    and lps2: "\<forall>i<shape inp2 ! 0. \<forall>j<internal_nodes cfg.
        left_probability ext cfg (pt2 i) (row_feature_set ext cfg (num_features_of inp2) i)
          tp tb (num_features_of inp2) j = Inr (lpf2 i j)"
    and cells2: "\<forall>i<shape inp2 ! 0. \<forall>k<nat (max_nodes cfg).
        probabilities r2 ! i ! k = Some (path_product (lpf2 i) k)"
  have M: "nat (max_nodes cfg) = 2 * internal_nodes cfg + 1" by (rule valid_nodes [OF v1])
  have s1: "Slice inp1 i (i + 1) = Some (pt1 i)" using pts1 i1 by blast
  have s2: "Slice inp2 i (i + 1) = Some (pt2 i)" using pts2 i2 by blast
  have pt: "pt1 i = pt2 i" using s1 s2 same by simp
  have "shape (pt1 i) = (i + 1 - i) # tl (shape inp1)" by (rule Slice_shape [OF s1])
  moreover have "shape (pt2 i) = (i + 1 - i) # tl (shape inp2)" by (rule Slice_shape [OF s2])
  ultimately have tl: "tl (shape inp1) = tl (shape inp2)" using pt by simp
  have d1: "dims inp1 = 2" and d2: "dims inp2 = 2"
    using v1 v2 by (simp_all add: valid_call_def)
  have "shape inp1 ! 1 = hd (tl (shape inp1))" by (rule rank2_second [OF d1])
  moreover have "shape inp2 ! 1 = hd (tl (shape inp2))" by (rule rank2_second [OF d2])
  ultimately have nf: "num_features_of inp1 = num_features_of inp2"
    using tl by (simp add: num_features_of_def)
  have lp: "lpf1 i j = lpf2 i j" if "j < internal_nodes cfg" for j
  proof -
    have "left_probability ext cfg (pt1 i) (row_feature_set ext cfg (num_features_of inp1) i)
          tp tb (num_features_of inp1) j = Inr (lpf1 i j)"
      using lps1 i1 that by blast
    moreover have "left_probability ext cfg (pt2 i)
          (row_feature_set ext cfg (num_features_of inp2) i)
          tp tb (num_features_of inp2) j = Inr (lpf2 i j)"
      using lps2 i2 that by blast
    ultimately show ?thesis
      by (simp add: pt nf)
  qed
  have "probabilities r1 ! i ! k = probabilities r2 ! i ! k" if k: "k < nat (max_nodes cfg)" for k
  proof -
    have "path_product (lpf1 i) k = path_product (lpf2 i) k"
    proof (rule path_product_cong)
      fix j assume "2 * j + 1 \<le> k"
      then have "j < internal_nodes cfg" using k M by simp
      then show "lpf1 i j = lpf2 i j" by (rule lp)
    qed
    then show ?thesis using cells1 cells2 i1 i2 k by simp
  qed
  then have "probabilities r1 ! i = probabilities r2 ! i"
    using lens1 lens2 i1 i2 by (intro nth_equalityI) simp_all
  then show ?thesis using run1 run2 by simp
qed

theorem row_independence_witness:
  "Slice example_input 1 2 = Slice example_wider_input 1 2 \<and>
   (\<exists>r1 r2.
      Compute example_externals example_config example_input example_parameters
        example_biases = Inr r1 \<and>
      Compute example_externals example_config example_wider_input example_parameters
        example_biases = Inr r2 \<and>
      probabilities r1 ! 1 = probabilities r2 ! 1)"
proof -
  have i1: "1 < shape example_input ! 0" by (simp add: example_input_def)
  have i2: "1 < shape example_wider_input ! 0" by (simp add: example_wider_input_def)
  have same: "Slice example_input 1 (1 + 1) = Slice example_wider_input 1 (1 + 1)"
    by (simp add: Slice_def example_input_def example_wider_input_def)
  show ?thesis
    using row_independence [OF example_valid example_wider_valid i1 i2 same] same
    by (simp add: numeral_2_eq_2)
qed

text \<open>
  C10. The status \<open>InvalidArgument\<close> is only ever set by the rank check, and only when
  the first dimension of the input is positive: a call whose input has \<open>0\<close> rows never
  ends with it, whatever its rank.
\<close>

theorem invalid_argument_needs_rows:
  assumes "Compute ext cfg inp tp tb = Inl (InvalidArgument msg)"
  shows "\<exists>d0. dim_size inp 0 = Some d0 \<and> 0 < d0 \<and> dims inp \<noteq> 2 \<and>
           msg = ''input_data should be two-dimensional''"
  using assms
  by (auto simp: Compute_def Let_def row_loop_no_InvalidArgument
      split: option.splits if_splits sum.splits)

theorem invalid_argument_needs_rows_witness:
  "Compute example_externals example_config example_cube_input example_parameters
     example_biases = Inl (InvalidArgument ''input_data should be two-dimensional'') \<and>
   (\<exists>d0. dim_size example_cube_input 0 = Some d0 \<and> 0 < d0 \<and> dims example_cube_input \<noteq> 2)"
proof -
  have run: "Compute example_externals example_config example_cube_input example_parameters
     example_biases = Inl (InvalidArgument ''input_data should be two-dimensional'')"
    by (simp add: Compute_def dim_size_def dims_def example_cube_input_def)
  show ?thesis
    using invalid_argument_needs_rows [OF run] run by blast
qed

end
